theory Spec2Isabelle
  imports Complex_Main "HOL-Library.List_Lexorder" "HOL-Library.Char_ord"
begin

section \<open>Values\<close>

text \<open>
  The arrays of the program hold float64 values. They are embedded as exact reals extended
  with the three special values of IEEE arithmetic. Rounding, overflow and the sign of zero
  are not part of the embedding: a finite value is the real number it stands for, and a
  zero divisor is treated as \<open>+0.0\<close>. A statement that gives the value of an output as the
  expression the program evaluates, or its sign, does not rest on this. A statement that
  equates sums does, and says that it is one of exact arithmetic.
\<close>

datatype fl = Num real | PosInf | NegInf | NaN

fun fneg :: "fl \<Rightarrow> fl" where
  "fneg (Num x) = Num (- x)"
| "fneg PosInf = NegInf"
| "fneg NegInf = PosInf"
| "fneg NaN = NaN"

fun fadd :: "fl \<Rightarrow> fl \<Rightarrow> fl" where
  "fadd (Num x) (Num y) = Num (x + y)"
| "fadd NaN _ = NaN"
| "fadd _ NaN = NaN"
| "fadd PosInf NegInf = NaN"
| "fadd NegInf PosInf = NaN"
| "fadd PosInf _ = PosInf"
| "fadd _ PosInf = PosInf"
| "fadd NegInf _ = NegInf"
| "fadd _ NegInf = NegInf"

definition fsub :: "fl \<Rightarrow> fl \<Rightarrow> fl" where
  "fsub a b = fadd a (fneg b)"

text \<open>The sign of a non-NaN value: \<open>-1\<close>, \<open>0\<close> or \<open>1\<close>.\<close>

fun fsgn :: "fl \<Rightarrow> real" where
  "fsgn (Num x) = sgn x"
| "fsgn PosInf = 1"
| "fsgn NegInf = - 1"
| "fsgn NaN = 0"

definition inf_of_sign :: "real \<Rightarrow> fl" where
  "inf_of_sign s = (if s = 0 then NaN else if 0 < s then PosInf else NegInf)"

fun fmul :: "fl \<Rightarrow> fl \<Rightarrow> fl" where
  "fmul (Num x) (Num y) = Num (x * y)"
| "fmul NaN _ = NaN"
| "fmul _ NaN = NaN"
| "fmul a b = inf_of_sign (fsgn a * fsgn b)"

fun fdiv :: "fl \<Rightarrow> fl \<Rightarrow> fl" where
  "fdiv (Num x) (Num y) = (if y = 0 then inf_of_sign (sgn x) else Num (x / y))"
| "fdiv NaN _ = NaN"
| "fdiv _ NaN = NaN"
| "fdiv (Num x) _ = Num 0"
| "fdiv a (Num y) = inf_of_sign (fsgn a * (if y < 0 then - 1 else 1))"
| "fdiv _ _ = NaN"

fun fabs :: "fl \<Rightarrow> fl" where
  "fabs (Num x) = Num \<bar>x\<bar>"
| "fabs NaN = NaN"
| "fabs _ = PosInf"

text \<open>Comparison with a finite constant; every comparison with NaN is false.\<close>

fun fgreater :: "fl \<Rightarrow> real \<Rightarrow> bool" where
  "fgreater (Num x) c = (c < x)"
| "fgreater PosInf c = True"
| "fgreater NegInf c = False"
| "fgreater NaN c = False"

fun fless :: "fl \<Rightarrow> real \<Rightarrow> bool" where
  "fless (Num x) c = (x < c)"
| "fless PosInf c = False"
| "fless NegInf c = True"
| "fless NaN c = False"

fun finite_val :: "fl \<Rightarrow> bool" where
  "finite_val (Num x) = True"
| "finite_val _ = False"

fun is_nan :: "fl \<Rightarrow> bool" where
  "is_nan NaN = True"
| "is_nan _ = False"

type_synonym row = "fl list"
type_synonym matrix = "fl list list"

section \<open>The realized-P\&L recurrence\<close>

text \<open>
  \<open>compute_realized_pnl\<close> of \<open>portfolio_data.py\<close>. Arithmetic on rows is elementwise;
  \<open>np.where\<close> is an ordinary function, so both of its value arguments are computed on the
  whole row before it selects. The statements below are about \<open>prices\<close> and \<open>units\<close> of
  one shape, as the two arrays of one portfolio are; numpy's broadcasting between rows of
  different lengths is outside the embedding.
\<close>

definition eps :: real where
  "eps = 1 / 10 ^ 16"

definition np_where :: "bool list \<Rightarrow> row \<Rightarrow> row \<Rightarrow> row" where
  "np_where cs xs ys = map (\<lambda>(c, x, y). if c then x else y) (zip cs (zip xs ys))"

definition np_where_scalar :: "bool list \<Rightarrow> row \<Rightarrow> fl \<Rightarrow> row" where
  "np_where_scalar cs xs v = map2 (\<lambda>c x. if c then x else v) cs xs"

definition zeros_like :: "matrix \<Rightarrow> matrix" where
  "zeros_like m = map (map (\<lambda>_. Num 0)) m"

text \<open>
  The four output arrays. The field \<open>divisions\<close> is not an array of the program: it logs the
  operand rows (numerators, denominators) of every call of \<open>np.true_divide\<close>, in order.
\<close>

record pnl_state =
  avg_costs :: matrix
  realized_pnl :: matrix
  mtm_pnl :: matrix
  trades :: matrix
  divisions :: "(row \<times> row) list"

definition init_state :: "matrix \<Rightarrow> pnl_state" where
  "init_state prices =
     \<lparr>avg_costs = zeros_like prices, realized_pnl = zeros_like prices,
      mtm_pnl = zeros_like prices, trades = zeros_like prices, divisions = []\<rparr>"

definition loop_body :: "matrix \<Rightarrow> matrix \<Rightarrow> pnl_state \<Rightarrow> nat \<Rightarrow> pnl_state" where
  "loop_body prices units s idx =
     (let price1 = prices ! idx; unit1 = units ! idx in
      if idx = 0 then
        s\<lparr>avg_costs := (avg_costs s)[idx := np_where_scalar (map (\<lambda>u. fgreater u eps) unit1) price1 (Num 0)]\<rparr>
      else
        let unit0 = units ! (idx - 1);
            avg_costs0 = avg_costs s ! (idx - 1);
            delta = map2 fsub unit1 unit0;
            is_purchase = map (\<lambda>d. fgreater d eps) delta;
            is_sell = map (\<lambda>d. fless d (- eps)) delta;
            realized = np_where_scalar is_sell
                         (map2 fmul (map fneg delta) (map2 fsub price1 avg_costs0)) (Num 0);
            numer = map2 fadd (map2 fmul delta price1) (map2 fmul unit0 avg_costs0);
            quotient = map2 fdiv numer unit1;
            avg = np_where is_purchase quotient avg_costs0;
            mtm = map2 fsub (map2 fmul unit0 (map2 fsub price1 avg_costs0)) realized
        in s\<lparr>realized_pnl := (realized_pnl s)[idx := realized],
              avg_costs := (avg_costs s)[idx := avg],
              mtm_pnl := (mtm_pnl s)[idx := mtm],
              trades := (trades s)[idx := delta],
              divisions := divisions s @ [(numer, unit1)]\<rparr>)"

text \<open>The state after the first \<open>k\<close> iterations of the loop over \<open>zip(prices, units)\<close>.\<close>

definition run :: "matrix \<Rightarrow> matrix \<Rightarrow> nat \<Rightarrow> pnl_state" where
  "run prices units k = foldl (loop_body prices units) (init_state prices) [0..<k]"

definition compute_realized_pnl :: "matrix \<Rightarrow> matrix \<Rightarrow> pnl_state" where
  "compute_realized_pnl prices units = run prices units (min (length prices) (length units))"

text \<open>The rows written at one iteration, named for the statements below.\<close>

definition delta_row :: "row \<Rightarrow> row \<Rightarrow> row" where
  "delta_row unit1 unit0 = map2 fsub unit1 unit0"

definition realized_row :: "row \<Rightarrow> row \<Rightarrow> row \<Rightarrow> row \<Rightarrow> row" where
  "realized_row price1 unit1 unit0 avg0 =
     np_where_scalar (map (\<lambda>d. fless d (- eps)) (delta_row unit1 unit0))
       (map2 fmul (map fneg (delta_row unit1 unit0)) (map2 fsub price1 avg0)) (Num 0)"

definition numer_row :: "row \<Rightarrow> row \<Rightarrow> row \<Rightarrow> row \<Rightarrow> row" where
  "numer_row price1 unit1 unit0 avg0 =
     map2 fadd (map2 fmul (delta_row unit1 unit0) price1) (map2 fmul unit0 avg0)"

definition avg_row :: "row \<Rightarrow> row \<Rightarrow> row \<Rightarrow> row \<Rightarrow> row" where
  "avg_row price1 unit1 unit0 avg0 =
     np_where (map (\<lambda>d. fgreater d eps) (delta_row unit1 unit0))
       (map2 fdiv (numer_row price1 unit1 unit0 avg0) unit1) avg0"

definition mtm_row :: "row \<Rightarrow> row \<Rightarrow> row \<Rightarrow> row \<Rightarrow> row" where
  "mtm_row price1 unit1 unit0 avg0 =
     map2 fsub (map2 fmul unit0 (map2 fsub price1 avg0)) (realized_row price1 unit1 unit0 avg0)"

definition first_avg_row :: "row \<Rightarrow> row \<Rightarrow> row" where
  "first_avg_row price1 unit1 = np_where_scalar (map (\<lambda>u. fgreater u eps) unit1) price1 (Num 0)"

text \<open>A rectangular array of \<open>T\<close> rows and \<open>N\<close> columns.\<close>

definition shape :: "matrix \<Rightarrow> nat \<Rightarrow> nat \<Rightarrow> bool" where
  "shape m T N = (length m = T \<and> (\<forall>r \<in> set m. length r = N))"

text \<open>The scenario of the specification: enter, hold, sell half, exit.\<close>

definition ex_prices :: matrix where
  "ex_prices = [[Num 10], [Num 10], [Num 12], [Num 12], [Num 15]]"

definition ex_units :: matrix where
  "ex_units = [[Num 0], [Num 10], [Num 10], [Num 5], [Num 0]]"

text \<open>A position held at the first step and closed at the second.\<close>

definition held_prices :: matrix where
  "held_prices = [[Num 10], [Num 12]]"

definition held_units :: matrix where
  "held_units = [[Num 10], [Num 0]]"

text \<open>Inputs of the contract: long-only units, finite and not negative.\<close>

fun nonneg :: "fl \<Rightarrow> bool" where
  "nonneg (Num x) = (0 \<le> x)"
| "nonneg _ = False"

definition long_only :: "matrix \<Rightarrow> bool" where
  "long_only units = list_all (list_all nonneg) units"


text \<open>The real number a finite value stands for.\<close>

fun val :: "fl \<Rightarrow> real" where
  "val (Num x) = x"
| "val _ = 0"

definition column :: "matrix \<Rightarrow> nat \<Rightarrow> row" where
  "column m i = map (\<lambda>r. r ! i) m"

text \<open>The same of one instrument alone, and finite prices of one instrument.\<close>

definition long_only_at :: "matrix \<Rightarrow> nat \<Rightarrow> bool" where
  "long_only_at units i = list_all nonneg (column units i)"

definition finite_at :: "matrix \<Rightarrow> nat \<Rightarrow> bool" where
  "finite_at prices i = list_all finite_val (column prices i)"

text \<open>Summation along the time axis, first row first.\<close>

definition fsum :: "row \<Rightarrow> fl" where
  "fsum xs = foldl fadd (Num 0) xs"

text \<open>
  The gain of marking instrument \<open>i\<close> to market from the first step to step \<open>t\<close>: each
  price move earns on the units carried into it.
\<close>

definition mtm_gain :: "matrix \<Rightarrow> matrix \<Rightarrow> nat \<Rightarrow> nat \<Rightarrow> real" where
  "mtm_gain units prices i t =
     sum_list (map (\<lambda>s. val (units ! (s - 1) ! i) * (val (prices ! s ! i) - val (prices ! (s - 1) ! i)))
                   [1..<Suc t])"

text \<open>
  A position of instrument \<open>i\<close> whose first holding and whose every later change is either
  exactly zero or larger than the threshold in magnitude.
\<close>

fun trade_sized :: "fl \<Rightarrow> bool" where
  "trade_sized (Num d) = (d = 0 \<or> eps < \<bar>d\<bar>)"
| "trade_sized _ = False"

definition no_small_trades :: "matrix \<Rightarrow> nat \<Rightarrow> bool" where
  "no_small_trades units i =
     (let c = column units i in list_all trade_sized (take 1 c @ map2 fsub (tl c) c))"



section \<open>Series and frames\<close>

text \<open>
  A pandas \<open>Series\<close> and \<open>DataFrame\<close>: labels and values. Dates are ordinal numbers,
  column labels are strings, \<open>NaN\<close> marks a missing value. A series carries a name.
\<close>

record series =
  s_name :: string
  s_index :: "nat list"
  s_values :: row

record frame =
  index :: "nat list"
  columns :: "string list"
  cells :: matrix

text \<open>One row of cells per index label, one cell per column label.\<close>

definition wf_frame :: "frame \<Rightarrow> bool" where
  "wf_frame f = shape (cells f) (length (index f)) (length (columns f))"

definition same_labels :: "frame \<Rightarrow> frame \<Rightarrow> bool" where
  "same_labels a b = (index a = index b \<and> columns a = columns b)"

definition const_frame :: "fl \<Rightarrow> nat list \<Rightarrow> string list \<Rightarrow> frame" where
  "const_frame v idx cols =
     \<lparr>index = idx, columns = cols, cells = replicate (length idx) (replicate (length cols) v)\<rparr>"

definition to_frame :: "series \<Rightarrow> frame" where
  "to_frame s = \<lparr>index = s_index s, columns = [s_name s], cells = map (\<lambda>v. [v]) (s_values s)\<rparr>"

subsection \<open>Alignment\<close>

text \<open>
  A binary operation on two frames first aligns them. Frames with equal labels are used as
  they are. Otherwise each axis becomes the sorted union of the labels and a cell without a
  source is \<open>NaN\<close>; this case assumes that labels are not repeated.
\<close>

fun pos_of :: "'a \<Rightarrow> 'a list \<Rightarrow> nat option" where
  "pos_of x [] = None"
| "pos_of x (y # ys) = (if x = y then Some 0 else map_option Suc (pos_of x ys))"

definition lookup :: "frame \<Rightarrow> nat \<Rightarrow> string \<Rightarrow> fl" where
  "lookup f d c =
     (case (pos_of d (index f), pos_of c (columns f)) of
        (Some t, Some i) \<Rightarrow> cells f ! t ! i
      | _ \<Rightarrow> NaN)"

definition reindex :: "frame \<Rightarrow> nat list \<Rightarrow> string list \<Rightarrow> frame" where
  "reindex f idx cols =
     \<lparr>index = idx, columns = cols, cells = map (\<lambda>d. map (\<lambda>c. lookup f d c) cols) idx\<rparr>"

definition union_labels :: "('a :: linorder) list \<Rightarrow> 'a list \<Rightarrow> 'a list" where
  "union_labels xs ys = (if xs = ys then xs else sort (remdups (xs @ ys)))"

definition align :: "frame \<Rightarrow> frame \<Rightarrow> frame \<times> frame" where
  "align a b =
     (if same_labels a b then (a, b)
      else let idx = union_labels (index a) (index b);
               cols = union_labels (columns a) (columns b)
           in (reindex a idx cols, reindex b idx cols))"

definition binop :: "(fl \<Rightarrow> fl \<Rightarrow> fl) \<Rightarrow> frame \<Rightarrow> frame \<Rightarrow> frame" where
  "binop f a b =
     (let (a', b') = align a b
      in \<lparr>index = index a', columns = columns a', cells = map2 (map2 f) (cells a') (cells b')\<rparr>)"

definition multiply :: "frame \<Rightarrow> frame \<Rightarrow> frame" where
  "multiply a b = binop fmul a b"

subsection \<open>Elementwise and row operations\<close>

text \<open>\<open>shift(1)\<close>: every row moves one position down, the first row becomes \<open>NaN\<close>.\<close>

definition shift_rows :: "nat \<Rightarrow> matrix \<Rightarrow> matrix" where
  "shift_rows n rs = (if rs = [] then [] else replicate n NaN # butlast rs)"

definition shift1 :: "frame \<Rightarrow> frame" where
  "shift1 f = f\<lparr>cells := shift_rows (length (columns f)) (cells f)\<rparr>"

text \<open>\<open>pct_change(fill_method=None)\<close> is \<open>data / data.shift(1) - 1\<close>.\<close>

definition pct_change :: "frame \<Rightarrow> frame" where
  "pct_change f =
     f\<lparr>cells := map2 (map2 (\<lambda>x y. fsub (fdiv x y) (Num 1))) (cells f) (cells (shift1 f))\<rparr>"

text \<open>\<open>diff(1)\<close> is \<open>data - data.shift(1)\<close>.\<close>

definition diff1 :: "frame \<Rightarrow> frame" where
  "diff1 f = f\<lparr>cells := map2 (map2 fsub) (cells f) (cells (shift1 f))\<rparr>"

definition fillna :: "fl \<Rightarrow> frame \<Rightarrow> frame" where
  "fillna v f = f\<lparr>cells := map (map (\<lambda>x. if is_nan x then v else x)) (cells f)\<rparr>"

definition abs_frame :: "frame \<Rightarrow> frame" where
  "abs_frame f = f\<lparr>cells := map (map fabs) (cells f)\<rparr>"

text \<open>The sum of a row that skips \<open>NaN\<close>: \<open>sum(axis=1)\<close> of pandas and \<open>np.nansum\<close>.\<close>

definition sum_skipna :: "row \<Rightarrow> fl" where
  "sum_skipna r = fsum (filter (\<lambda>x. \<not> is_nan x) r)"

text \<open>\<open>unique()\<close>: the distinct values in the order of their first occurrence.\<close>

definition unique :: "'a list \<Rightarrow> 'a list" where
  "unique xs = rev (remdups (rev xs))"

subsection \<open>Aggregation by groups\<close>

text \<open>
  Modelled from the spec: \<open>agg_df_by_groups_ax1\<close> of \<open>qis.utils.df_groups\<close> is not among the
  sources. By section 4.2 of the specification the result has one column per label of
  \<open>group_order\<close>, in that order, each the aggregate across the columns of the instruments
  that \<open>group_data\<close> maps to the group, and, when a total column is requested, one column of
  that label with the aggregate across all instrument columns. The specification leaves the
  place of the total column open; it is put first, as the ungrouped branch of
  \<open>get_turnover\<close> does.
\<close>

definition agg_df_by_groups_ax1 ::
  "frame \<Rightarrow> (string \<times> string) list \<Rightarrow> (row \<Rightarrow> fl) \<Rightarrow> string option \<Rightarrow> string list \<Rightarrow> frame" where
  "agg_df_by_groups_ax1 df group_data agg_func total_column group_order =
     (let members = (\<lambda>g r. map snd (filter (\<lambda>(c, x). map_of group_data c = Some g)
                                              (zip (columns df) r)));
          total = (\<lambda>r. case total_column of None \<Rightarrow> [] | Some c \<Rightarrow> [agg_func r]);
          agg_row = (\<lambda>r. total r @ map (\<lambda>g. agg_func (members g r)) group_order)
      in \<lparr>index = index df,
          columns = (case total_column of None \<Rightarrow> [] | Some c \<Rightarrow> [c]) @ group_order,
          cells = map agg_row (cells df)\<rparr>)"

section \<open>PortfolioData\<close>

datatype error = IndexError | ValueError | NotImplementedError string

text \<open>
  The fields of the dataclass as the caller passes them: \<open>nav\<close> may be a series or a frame,
  every other field may be \<open>None\<close>. The fields \<open>input_weights\<close> and \<open>is_rebalancing\<close> are
  stored as given and play no part below. \<open>group_data\<close> maps instrument to group, in the
  order of the series; \<open>tickers_to_names_map\<close> maps ticker to name.
\<close>

datatype nav_arg = NavSeries series | NavFrame frame

record portfolio_args =
  nav_arg :: nav_arg
  weights_arg :: "frame option"
  units_arg :: "frame option"
  prices_arg :: "frame option"
  instrument_pnl_arg :: "frame option"
  realized_costs_arg :: "frame option"
  tickers_to_names_map_arg :: "(string \<times> string) list option"
  group_data_arg :: "(string \<times> string) list option"
  group_order_arg :: "string list option"
  benchmark_prices_arg :: "frame option"

text \<open>The object after \<open>__post_init__\<close>.\<close>

record portfolio_data =
  nav :: series
  weights :: frame
  units :: frame
  prices :: frame
  instrument_pnl :: frame
  realized_costs :: frame
  tickers_to_names_map :: "(string \<times> string) list option"
  group_data :: "(string \<times> string) list"
  group_order :: "string list"
  benchmark_prices :: "frame option"

text \<open>\<open>nav.iloc[:, 0]\<close> of a frame raises when the frame has no column.\<close>

definition nav_series :: "nav_arg \<Rightarrow> error + series" where
  "nav_series n =
     (case n of
        NavSeries s \<Rightarrow> Inr s
      | NavFrame f \<Rightarrow>
          (case columns f of
             [] \<Rightarrow> Inl IndexError
           | c # _ \<Rightarrow> Inr \<lparr>s_name = c, s_index = index f, s_values = column (cells f) 0\<rparr>))"

definition default_instrument_pnl :: "frame \<Rightarrow> frame \<Rightarrow> frame" where
  "default_instrument_pnl ps ws = fillna (Num 0) (multiply (pct_change ps) (shift1 ws))"

text \<open>
  \<open>__post_init__\<close>. The forward-filling \<open>reindex\<close> of the benchmark prices onto the index
  of \<open>nav\<close> is pandas' own and is taken as the parameter \<open>reindex_ffill\<close>; it may raise.
\<close>

definition post_init ::
  "(frame \<Rightarrow> nat list \<Rightarrow> error + frame) \<Rightarrow> portfolio_args \<Rightarrow> error + portfolio_data" where
  "post_init reindex_ffill a =
     (case nav_series (nav_arg a) of
        Inl e \<Rightarrow> Inl e
      | Inr nv \<Rightarrow>
          let ps = (case prices_arg a of None \<Rightarrow> to_frame nv | Some p \<Rightarrow> p);
              ws = (case weights_arg a of
                      None \<Rightarrow> const_frame (Num 1) (index ps) (columns ps) | Some w \<Rightarrow> w);
              us = (case units_arg a of
                      None \<Rightarrow> const_frame (Num 1) (index ps) (columns ps) | Some u \<Rightarrow> u);
              ip = (case instrument_pnl_arg a of
                      None \<Rightarrow> default_instrument_pnl ps ws | Some x \<Rightarrow> x);
              rc = (case realized_costs_arg a of
                      None \<Rightarrow> const_frame (Num 0) (index ps) (columns ps) | Some c \<Rightarrow> c);
              gd = (case group_data_arg a of
                      None \<Rightarrow> map (\<lambda>c. (c, c)) (columns ps) | Some g \<Rightarrow> g);
              go = (case group_order_arg a of None \<Rightarrow> unique (map snd gd) | Some g \<Rightarrow> g);
              obj = \<lparr>nav = nv, weights = ws, units = us, prices = ps, instrument_pnl = ip,
                     realized_costs = rc,
                     tickers_to_names_map = tickers_to_names_map_arg a,
                     group_data = gd, group_order = go,
                     benchmark_prices = None\<rparr>
          in case benchmark_prices_arg a of
               None \<Rightarrow> Inr obj
             | Some b \<Rightarrow>
                 (case reindex_ffill b (s_index nv) of
                    Inl e \<Rightarrow> Inl e
                  | Inr b' \<Rightarrow> Inr (obj\<lparr>benchmark_prices := Some b'\<rparr>)))"

text \<open>A portfolio given by its nav alone, and a reindexing that leaves a frame as it is.\<close>

definition ex_nav :: series where
  "ex_nav = \<lparr>s_name = ''fund'', s_index = [1, 2, 3], s_values = [Num 100, Num 110, Num 121]\<rparr>"

definition ex_args :: portfolio_args where
  "ex_args =
     \<lparr>nav_arg = NavSeries ex_nav, weights_arg = None, units_arg = None, prices_arg = None,
      instrument_pnl_arg = None, realized_costs_arg = None,
      tickers_to_names_map_arg = None, group_data_arg = None,
      group_order_arg = None, benchmark_prices_arg = None\<rparr>"

definition keep_frame :: "frame \<Rightarrow> nat list \<Rightarrow> error + frame" where
  "keep_frame b idx = Inr b"

text \<open>
  Two priced instruments and weights for one of them, rising from date to date.
\<close>

definition part_args :: portfolio_args where
  "part_args =
     ex_args\<lparr>prices_arg := Some \<lparr>index = [1, 2, 3], columns = [''b'', ''a''],
                                 cells = [[Num 50, Num 100], [Num 55, Num 110], [Num 66, Num 121]]\<rparr>,
              weights_arg := Some \<lparr>index = [1, 2, 3], columns = [''a''],
                                  cells = [[Num 1], [Num 2], [Num 3]]\<rparr>\<rparr>"

section \<open>Turnover\<close>

text \<open>\<open>get_turnover\<close> returns a series or a frame.\<close>

datatype table = Series series | Frame frame

text \<open>
  \<open>divide(array, axis=0)\<close>: row \<open>t\<close> is divided by the \<open>t\<close>-th entry of the array. In
  \<open>get_turnover\<close> the frame and the array come from the same alignment of units and prices
  and have the same number of rows.
\<close>

definition divide_rows :: "frame \<Rightarrow> row \<Rightarrow> frame" where
  "divide_rows f ds = f\<lparr>cells := map2 (\<lambda>r d. map (\<lambda>x. fdiv x d) r) (cells f) ds\<rparr>"

text \<open>The first three statements of \<open>get_turnover\<close>: traded value over gross exposure.\<close>

definition turnover_frame :: "portfolio_data \<Rightarrow> frame" where
  "turnover_frame self =
     (let turnover = multiply (abs_frame (diff1 (units self))) (prices self);
          abs_exposure = map sum_skipna (cells (abs_frame (multiply (units self) (prices self))))
      in divide_rows turnover abs_exposure)"

text \<open>
  \<open>Series.reindex(index=...)\<close>: values by label, \<open>NaN\<close> for a label the series lacks. Unless
  the index is already the target, repeated labels in the series raise.
\<close>

definition reindex_series :: "series \<Rightarrow> nat list \<Rightarrow> error + series" where
  "reindex_series s idx =
     (if s_index s = idx then Inr s
      else if \<not> distinct (s_index s) then Inl ValueError
      else Inr (s\<lparr>s_index := idx,
                  s_values := map (\<lambda>d. case pos_of d (s_index s) of
                                          Some t \<Rightarrow> s_values s ! t | None \<Rightarrow> NaN) idx\<rparr>))"

text \<open>\<open>pd.concat([turnover.sum(axis=1).rename(name), turnover], axis=1)\<close>.\<close>

definition concat_total :: "string \<Rightarrow> frame \<Rightarrow> frame" where
  "concat_total name f =
     f\<lparr>columns := name # columns f, cells := map (\<lambda>r. sum_skipna r # r) (cells f)\<rparr>"

text \<open>
  \<open>rolling(w).sum()\<close> on one column: the first \<open>w - 1\<close> entries are \<open>NaN\<close>, and so is every
  entry whose window holds a value that is not finite; otherwise the entry is the sum of
  the window.
\<close>

definition rolling_sum :: "nat \<Rightarrow> row \<Rightarrow> row" where
  "rolling_sum w xs =
     map (\<lambda>t. if t + 1 < w then NaN
               else let win = take w (drop (t + 1 - w) xs)
                    in if list_all finite_val win then fsum win else NaN)
         [0..<length xs]"

definition map_columns :: "(row \<Rightarrow> row) \<Rightarrow> frame \<Rightarrow> frame" where
  "map_columns g f =
     (let cols = map (\<lambda>i. g (column (cells f) i)) [0..<length (columns f)]
      in f\<lparr>cells := map (\<lambda>t. map (\<lambda>c. c ! t) cols) [0..<length (cells f)]\<rparr>)"

text \<open>A negative window raises.\<close>

definition rolling :: "int \<Rightarrow> table \<Rightarrow> error + table" where
  "rolling w tbl =
     (if w < 0 then Inl ValueError
      else case tbl of
             Series s \<Rightarrow> Inr (Series (s\<lparr>s_values := rolling_sum (nat w) (s_values s)\<rparr>))
           | Frame f \<Rightarrow> Inr (Frame (map_columns (rolling_sum (nat w)) f)))"

text \<open>
  \<open>resample(freq).sum()\<close>. The calendar arithmetic that cuts an index into the bins of a
  frequency is pandas' own: a frequency is given as its binning, which yields for an index
  the labels of the bins and, for each, the positions of the rows in it. Each bin sums its
  rows, skipping \<open>NaN\<close>; an empty bin sums to zero.
\<close>

type_synonym binning = "nat list \<Rightarrow> (nat \<times> nat list) list"

definition resample_cells :: "(nat \<times> nat list) list \<Rightarrow> matrix \<Rightarrow> nat \<Rightarrow> matrix" where
  "resample_cells bins m n =
     map (\<lambda>(label, ts). map (\<lambda>i. sum_skipna (map (\<lambda>t. m ! t ! i) (filter (\<lambda>t. t < length m) ts)))
                              [0..<n])
         bins"

definition resample_sum :: "binning \<Rightarrow> table \<Rightarrow> table" where
  "resample_sum freq tbl =
     (case tbl of
        Series s \<Rightarrow>
          Series (s\<lparr>s_index := map fst (freq (s_index s)),
                    s_values := map (\<lambda>r. r ! 0)
                                    (resample_cells (freq (s_index s)) (map (\<lambda>v. [v]) (s_values s)) 1)\<rparr>)
      | Frame f \<Rightarrow>
          Frame (f\<lparr>index := map fst (freq (index f)),
                   cells := resample_cells (freq (index f)) (cells f) (length (columns f))\<rparr>))"

text \<open>
  \<open>get_turnover\<close>. \<open>TimePeriod\<close> of \<open>qis.utils.dates\<close> is not among the sources: a time
  period is given as its method \<open>locate\<close>.
\<close>

definition get_turnover ::
  "portfolio_data \<Rightarrow> bool \<Rightarrow> bool \<Rightarrow> (table \<Rightarrow> table) option \<Rightarrow> int option \<Rightarrow> bool \<Rightarrow>
     binning option \<Rightarrow> error + table" where
  "get_turnover self is_agg is_grouped time_period roll_period add_total freq =
     (let turnover = turnover_frame self;
          shaped =
            (if is_agg then
               (case reindex_series \<lparr>s_name = s_name (nav self), s_index = index turnover,
                                      s_values = map sum_skipna (cells turnover)\<rparr>
                                    (s_index (nav self)) of
                  Inl e \<Rightarrow> Inl e
                | Inr s \<Rightarrow> Inr (Series s))
             else if is_grouped \<or> 10 < length (columns turnover) then
               Inr (Frame (agg_df_by_groups_ax1 turnover (group_data self) sum_skipna
                             (if add_total then Some (s_name (nav self)) else None)
                             (group_order self)))
             else if add_total then Inr (Frame (concat_total (s_name (nav self)) turnover))
             else Inr (Frame turnover));
          summed =
            (case shaped of
               Inl e \<Rightarrow> Inl e
             | Inr tbl \<Rightarrow>
                 (case roll_period of
                    Some w \<Rightarrow> rolling w tbl
                  | None \<Rightarrow> (case freq of Some b \<Rightarrow> Inr (resample_sum b tbl) | None \<Rightarrow> Inr tbl)))
      in case summed of
           Inl e \<Rightarrow> Inl e
         | Inr tbl \<Rightarrow> Inr (case time_period of Some locate \<Rightarrow> locate tbl | None \<Rightarrow> tbl))"

text \<open>Non-negative wherever defined: \<open>NaN\<close> is undefined, \<open>+inf\<close> is not negative.\<close>

fun not_negative :: "fl \<Rightarrow> bool" where
  "not_negative (Num x) = (0 \<le> x)"
| "not_negative NegInf = False"
| "not_negative _ = True"

definition not_negative_table :: "table \<Rightarrow> bool" where
  "not_negative_table tbl =
     (case tbl of
        Series s \<Rightarrow> list_all not_negative (s_values s)
      | Frame f \<Rightarrow> list_all (list_all not_negative) (cells f))"

text \<open>The same of a whole array, and of a table whose frame is rectangular.\<close>

definition nn_matrix :: "matrix \<Rightarrow> bool" where
  "nn_matrix m = list_all (list_all not_negative) m"

definition nn_table :: "table \<Rightarrow> bool" where
  "nn_table tbl =
     (case tbl of
        Series s \<Rightarrow> list_all not_negative (s_values s)
      | Frame f \<Rightarrow> wf_frame f \<and> nn_matrix (cells f))"

text \<open>One instrument over two dates, the second price negative.\<close>

definition short_price :: portfolio_data where
  "short_price =
     \<lparr>nav = \<lparr>s_name = ''fund'', s_index = [1, 2], s_values = [Num 1, Num 1]\<rparr>,
      weights = \<lparr>index = [1, 2], columns = [''a''], cells = [[Num 1], [Num 1]]\<rparr>,
      units = \<lparr>index = [1, 2], columns = [''a''], cells = [[Num 1], [Num 2]]\<rparr>,
      prices = \<lparr>index = [1, 2], columns = [''a''], cells = [[Num 1], [Num (- 2)]]\<rparr>,
      instrument_pnl = \<lparr>index = [1, 2], columns = [''a''], cells = [[Num 0], [Num (- 3)]]\<rparr>,
      realized_costs = \<lparr>index = [1, 2], columns = [''a''], cells = [[Num 0], [Num 0]]\<rparr>,
      tickers_to_names_map = None,
      group_data = [(''a'', ''a'')], group_order = [''a''], benchmark_prices = None\<rparr>"

text \<open>The same instrument at positive prices.\<close>

definition long_fund :: portfolio_data where
  "long_fund = short_price\<lparr>prices := \<lparr>index = [1, 2], columns = [''a''], cells = [[Num 1], [Num 2]]\<rparr>\<rparr>"



section \<open>Performance data\<close>




















section \<open>Properties of the recurrence\<close>

lemma run_0: "run p u 0 = init_state p"
  by (simp add: run_def)

lemma run_Suc: "run p u (Suc k) = loop_body p u (run p u k) k"
  by (simp add: run_def)

lemma loop_body_0:
  "loop_body p u s 0 = s\<lparr>avg_costs := (avg_costs s)[0 := first_avg_row (p ! 0) (u ! 0)]\<rparr>"
  by (simp add: loop_body_def first_avg_row_def)

lemma loop_body_pos:
  "0 < idx \<Longrightarrow> loop_body p u s idx =
     s\<lparr>realized_pnl := (realized_pnl s)[idx := realized_row (p ! idx) (u ! idx) (u ! (idx - 1)) (avg_costs s ! (idx - 1))],
       avg_costs := (avg_costs s)[idx := avg_row (p ! idx) (u ! idx) (u ! (idx - 1)) (avg_costs s ! (idx - 1))],
       mtm_pnl := (mtm_pnl s)[idx := mtm_row (p ! idx) (u ! idx) (u ! (idx - 1)) (avg_costs s ! (idx - 1))],
       trades := (trades s)[idx := delta_row (u ! idx) (u ! (idx - 1))],
       divisions := divisions s @ [(numer_row (p ! idx) (u ! idx) (u ! (idx - 1)) (avg_costs s ! (idx - 1)), u ! idx)]\<rparr>"
  by (simp add: loop_body_def Let_def realized_row_def avg_row_def mtm_row_def delta_row_def numer_row_def)

lemma loop_body_lengths:
  "length (avg_costs (loop_body p u s idx)) = length (avg_costs s)"
  "length (realized_pnl (loop_body p u s idx)) = length (realized_pnl s)"
  "length (mtm_pnl (loop_body p u s idx)) = length (mtm_pnl s)"
  "length (trades (loop_body p u s idx)) = length (trades s)"
  by (cases idx; simp add: loop_body_0 loop_body_pos)+

lemma run_lengths:
  "length (avg_costs (run p u k)) = length p"
  "length (realized_pnl (run p u k)) = length p"
  "length (mtm_pnl (run p u k)) = length p"
  "length (trades (run p u k)) = length p"
  by (induction k; simp add: run_0 run_Suc loop_body_lengths init_state_def zeros_like_def)+

lemma loop_body_other_rows:
  assumes "j \<noteq> idx"
  shows "avg_costs (loop_body p u s idx) ! j = avg_costs s ! j"
    and "realized_pnl (loop_body p u s idx) ! j = realized_pnl s ! j"
    and "mtm_pnl (loop_body p u s idx) ! j = mtm_pnl s ! j"
    and "trades (loop_body p u s idx) ! j = trades s ! j"
  using assms by (cases idx; simp add: loop_body_0 loop_body_pos)+

lemma run_rows_stable:
  assumes "j < k"
  shows "avg_costs (run p u k) ! j = avg_costs (run p u (Suc j)) ! j"
    and "realized_pnl (run p u k) ! j = realized_pnl (run p u (Suc j)) ! j"
    and "mtm_pnl (run p u k) ! j = mtm_pnl (run p u (Suc j)) ! j"
    and "trades (run p u k) ! j = trades (run p u (Suc j)) ! j"
  using assms
proof (induction k)
  case 0
  { case 1 then show ?case by simp }
  { case 2 then show ?case by simp }
  { case 3 then show ?case by simp }
  { case 4 then show ?case by simp }
next
  case (Suc k)
  { case 1 then show ?case using Suc.IH(1)
      by (cases "j = k") (simp_all add: run_Suc [of p u k] loop_body_other_rows) }
  { case 2 then show ?case using Suc.IH(2)
      by (cases "j = k") (simp_all add: run_Suc [of p u k] loop_body_other_rows) }
  { case 3 then show ?case using Suc.IH(3)
      by (cases "j = k") (simp_all add: run_Suc [of p u k] loop_body_other_rows) }
  { case 4 then show ?case using Suc.IH(4)
      by (cases "j = k") (simp_all add: run_Suc [of p u k] loop_body_other_rows) }
qed

lemma run_row_written_0:
  assumes "0 < length p"
  shows "avg_costs (run p u (Suc 0)) ! 0 = first_avg_row (p ! 0) (u ! 0)"
    and "realized_pnl (run p u (Suc 0)) ! 0 = zeros_like p ! 0"
    and "mtm_pnl (run p u (Suc 0)) ! 0 = zeros_like p ! 0"
    and "trades (run p u (Suc 0)) ! 0 = zeros_like p ! 0"
  using assms
  by (simp_all add: run_Suc [of p u 0] run_0 loop_body_0 init_state_def zeros_like_def)

lemma run_row_written_pos:
  assumes "t < length p" "0 < t"
  shows "avg_costs (run p u (Suc t)) ! t =
           avg_row (p ! t) (u ! t) (u ! (t - 1)) (avg_costs (run p u t) ! (t - 1))"
    and "realized_pnl (run p u (Suc t)) ! t =
           realized_row (p ! t) (u ! t) (u ! (t - 1)) (avg_costs (run p u t) ! (t - 1))"
    and "mtm_pnl (run p u (Suc t)) ! t =
           mtm_row (p ! t) (u ! t) (u ! (t - 1)) (avg_costs (run p u t) ! (t - 1))"
    and "trades (run p u (Suc t)) ! t = delta_row (u ! t) (u ! (t - 1))"
  using assms
  by (simp_all add: run_Suc [of p u t] loop_body_pos run_lengths)

lemma final_row_0:
  assumes "0 < min (length p) (length u)"
  shows "avg_costs (compute_realized_pnl p u) ! 0 = first_avg_row (p ! 0) (u ! 0)"
    and "realized_pnl (compute_realized_pnl p u) ! 0 = zeros_like p ! 0"
    and "mtm_pnl (compute_realized_pnl p u) ! 0 = zeros_like p ! 0"
    and "trades (compute_realized_pnl p u) ! 0 = zeros_like p ! 0"
proof -
  have p0: "0 < length p" using assms by simp
  show "avg_costs (compute_realized_pnl p u) ! 0 = first_avg_row (p ! 0) (u ! 0)"
    unfolding compute_realized_pnl_def
    by (simp only: run_rows_stable(1) [OF assms] run_row_written_0(1) [OF p0])
  show "realized_pnl (compute_realized_pnl p u) ! 0 = zeros_like p ! 0"
    unfolding compute_realized_pnl_def
    by (simp only: run_rows_stable(2) [OF assms] run_row_written_0(2) [OF p0])
  show "mtm_pnl (compute_realized_pnl p u) ! 0 = zeros_like p ! 0"
    unfolding compute_realized_pnl_def
    by (simp only: run_rows_stable(3) [OF assms] run_row_written_0(3) [OF p0])
  show "trades (compute_realized_pnl p u) ! 0 = zeros_like p ! 0"
    unfolding compute_realized_pnl_def
    by (simp only: run_rows_stable(4) [OF assms] run_row_written_0(4) [OF p0])
qed

lemma final_row_pos:
  assumes "t < min (length p) (length u)" "0 < t"
  defines "s \<equiv> compute_realized_pnl p u"
  shows "avg_costs s ! t = avg_row (p ! t) (u ! t) (u ! (t - 1)) (avg_costs s ! (t - 1))"
    and "realized_pnl s ! t = realized_row (p ! t) (u ! t) (u ! (t - 1)) (avg_costs s ! (t - 1))"
    and "mtm_pnl s ! t = mtm_row (p ! t) (u ! t) (u ! (t - 1)) (avg_costs s ! (t - 1))"
    and "trades s ! t = delta_row (u ! t) (u ! (t - 1))"
proof -
  let ?T = "min (length p) (length u)"
  have tp: "t < length p" using assms(1) by simp
  have "t - 1 < ?T" using assms(1) by arith
  from run_rows_stable(1) [OF this, of p u]
  have prev: "avg_costs s ! (t - 1) = avg_costs (run p u t) ! (t - 1)"
    using assms(2) by (simp add: s_def compute_realized_pnl_def)
  show "avg_costs s ! t = avg_row (p ! t) (u ! t) (u ! (t - 1)) (avg_costs s ! (t - 1))"
    unfolding prev unfolding s_def compute_realized_pnl_def
    by (simp only: run_rows_stable(1) [OF assms(1)] run_row_written_pos(1) [OF tp assms(2)])
  show "realized_pnl s ! t = realized_row (p ! t) (u ! t) (u ! (t - 1)) (avg_costs s ! (t - 1))"
    unfolding prev unfolding s_def compute_realized_pnl_def
    by (simp only: run_rows_stable(2) [OF assms(1)] run_row_written_pos(2) [OF tp assms(2)])
  show "mtm_pnl s ! t = mtm_row (p ! t) (u ! t) (u ! (t - 1)) (avg_costs s ! (t - 1))"
    unfolding prev unfolding s_def compute_realized_pnl_def
    by (simp only: run_rows_stable(3) [OF assms(1)] run_row_written_pos(3) [OF tp assms(2)])
  show "trades s ! t = delta_row (u ! t) (u ! (t - 1))"
    unfolding s_def compute_realized_pnl_def
    by (simp only: run_rows_stable(4) [OF assms(1)] run_row_written_pos(4) [OF tp assms(2)])
qed

lemma np_where_scalar_nth:
  "i < length cs \<Longrightarrow> i < length xs \<Longrightarrow> np_where_scalar cs xs v ! i = (if cs ! i then xs ! i else v)"
  by (simp add: np_where_scalar_def)

lemma np_where_nth:
  "i < length cs \<Longrightarrow> i < length xs \<Longrightarrow> i < length ys \<Longrightarrow>
   np_where cs xs ys ! i = (if cs ! i then xs ! i else ys ! i)"
  by (simp add: np_where_def)

lemma row_lengths:
  assumes "length u1 = N" "length u0 = N" "length p1 = N" "length a0 = N"
  shows "length (delta_row u1 u0) = N"
    and "length (first_avg_row p1 u1) = N"
    and "length (realized_row p1 u1 u0 a0) = N"
    and "length (numer_row p1 u1 u0 a0) = N"
    and "length (avg_row p1 u1 u0 a0) = N"
    and "length (mtm_row p1 u1 u0 a0) = N"
  using assms
  by (simp_all add: delta_row_def first_avg_row_def realized_row_def numer_row_def avg_row_def
        mtm_row_def np_where_def np_where_scalar_def)

lemma shape_row: "shape m T N \<Longrightarrow> t < T \<Longrightarrow> length (m ! t) = N"
  by (simp add: shape_def)

lemma shape_min: "shape p T N \<Longrightarrow> shape u T N \<Longrightarrow> min (length p) (length u) = T"
  by (simp add: shape_def)

lemma avg_costs_row_length:
  assumes "shape p T N" "shape u T N" "t < T"
  shows "length (avg_costs (compute_realized_pnl p u) ! t) = N"
  using assms(3)
proof (induction t)
  case 0
  then have "0 < min (length p) (length u)" using assms by (simp add: shape_min)
  from final_row_0(1) [OF this]
  have "avg_costs (compute_realized_pnl p u) ! 0 = first_avg_row (p ! 0) (u ! 0)" .
  moreover have "length (p ! 0) = N" "length (u ! 0) = N"
    using assms 0 by (simp_all add: shape_row)
  ultimately show ?case using row_lengths(2) [of "u ! 0" N "u ! 0" "p ! 0" "p ! 0"] by simp
next
  case (Suc t)
  then have "Suc t < min (length p) (length u)" using assms by (simp add: shape_min)
  from final_row_pos(1) [OF this]
  have "avg_costs (compute_realized_pnl p u) ! Suc t =
          avg_row (p ! Suc t) (u ! Suc t) (u ! t) (avg_costs (compute_realized_pnl p u) ! t)"
    by simp
  moreover have "length (p ! Suc t) = N" "length (u ! Suc t) = N" "length (u ! t) = N"
    using assms Suc.prems by (simp_all add: shape_row)
  moreover have "length (avg_costs (compute_realized_pnl p u) ! t) = N"
    using Suc by simp
  ultimately show ?case using row_lengths(5) by simp
qed

lemma delta_row_nth:
  "i < length u1 \<Longrightarrow> i < length u0 \<Longrightarrow> delta_row u1 u0 ! i = fsub (u1 ! i) (u0 ! i)"
  by (simp add: delta_row_def)

lemma first_avg_row_nth:
  "i < length u1 \<Longrightarrow> i < length p1 \<Longrightarrow>
   first_avg_row p1 u1 ! i = (if fgreater (u1 ! i) eps then p1 ! i else Num 0)"
  by (simp add: first_avg_row_def np_where_scalar_def)

lemma realized_row_nth:
  assumes "i < length u1" "i < length u0" "i < length p1" "i < length a0"
  shows "realized_row p1 u1 u0 a0 ! i =
     (if fless (fsub (u1 ! i) (u0 ! i)) (- eps)
      then fmul (fneg (fsub (u1 ! i) (u0 ! i))) (fsub (p1 ! i) (a0 ! i)) else Num 0)"
  using assms by (simp add: realized_row_def np_where_scalar_def delta_row_def)

lemma avg_row_nth:
  assumes "i < length u1" "i < length u0" "i < length p1" "i < length a0"
  shows "avg_row p1 u1 u0 a0 ! i =
     (if fgreater (fsub (u1 ! i) (u0 ! i)) eps
      then fdiv (fadd (fmul (fsub (u1 ! i) (u0 ! i)) (p1 ! i)) (fmul (u0 ! i) (a0 ! i))) (u1 ! i)
      else a0 ! i)"
  using assms by (simp add: avg_row_def np_where_def delta_row_def numer_row_def)

lemma mtm_row_nth:
  assumes "i < length u1" "i < length u0" "i < length p1" "i < length a0"
  shows "mtm_row p1 u1 u0 a0 ! i =
     fsub (fmul (u0 ! i) (fsub (p1 ! i) (a0 ! i))) (realized_row p1 u1 u0 a0 ! i)"
  using assms by (simp add: mtm_row_def realized_row_def np_where_scalar_def delta_row_def)

lemma zeros_like_nth:
  "shape p T N \<Longrightarrow> t < T \<Longrightarrow> i < N \<Longrightarrow> zeros_like p ! t ! i = Num 0"
  by (simp add: zeros_like_def shape_def)

text \<open>Everything the entry-level statements need about one step \<open>t > 0\<close>.\<close>

lemma step_facts:
  assumes "shape p T N" "shape u T N" "0 < t" "t < T" "i < N"
  defines "s \<equiv> compute_realized_pnl p u"
  shows "t < min (length p) (length u)"
    and "i < length (u ! t)" and "i < length (u ! (t - 1))" and "i < length (p ! t)"
    and "i < length (avg_costs s ! (t - 1))"
proof -
  have "t - 1 < T" using assms(4) by arith
  then show "i < length (avg_costs s ! (t - 1))"
    using avg_costs_row_length [OF assms(1,2), of "t - 1"] assms(5) by (simp add: s_def)
  show "i < length (u ! (t - 1))"
    using shape_row [OF assms(2) \<open>t - 1 < T\<close>] assms(5) by simp
qed (use assms in \<open>simp_all add: shape_min shape_row\<close>)

lemma purchase_sell_exclusive: "\<not> (fgreater d eps \<and> fless d (- eps))"
  by (cases d) (simp_all add: eps_def)

text \<open>The entries written at a step \<open>t > 0\<close> and at the first step.\<close>

lemma realized_entry:
  assumes "shape p T N" and "shape u T N" and "0 < t" and "t < T" and "i < N"
  shows "realized_pnl (compute_realized_pnl p u) ! t ! i =
           (if fless (fsub (u ! t ! i) (u ! (t - 1) ! i)) (- eps)
            then fmul (fneg (fsub (u ! t ! i) (u ! (t - 1) ! i)))
                      (fsub (p ! t ! i) (avg_costs (compute_realized_pnl p u) ! (t - 1) ! i))
            else Num 0)"
proof -
  note f = step_facts [OF assms]
  show ?thesis
    unfolding final_row_pos(2) [OF f(1) assms(3)]
    by (rule realized_row_nth [OF f(2) f(3) f(4) f(5)])
qed

lemma avg_entry:
  assumes "shape p T N" and "shape u T N" and "0 < t" and "t < T" and "i < N"
  shows "avg_costs (compute_realized_pnl p u) ! t ! i =
           (if fgreater (fsub (u ! t ! i) (u ! (t - 1) ! i)) eps
            then fdiv (fadd (fmul (fsub (u ! t ! i) (u ! (t - 1) ! i)) (p ! t ! i))
                            (fmul (u ! (t - 1) ! i) (avg_costs (compute_realized_pnl p u) ! (t - 1) ! i)))
                      (u ! t ! i)
            else avg_costs (compute_realized_pnl p u) ! (t - 1) ! i)"
proof -
  note f = step_facts [OF assms]
  have "avg_costs (compute_realized_pnl p u) ! t =
          avg_row (p ! t) (u ! t) (u ! (t - 1)) (avg_costs (compute_realized_pnl p u) ! (t - 1))"
    using final_row_pos(1) [OF f(1) assms(3)] .
  then show ?thesis
    using avg_row_nth [OF f(2) f(3) f(4) f(5)] by simp
qed

lemma mtm_entry:
  assumes "shape p T N" and "shape u T N" and "0 < t" and "t < T" and "i < N"
  shows "mtm_pnl (compute_realized_pnl p u) ! t ! i =
           fsub (fmul (u ! (t - 1) ! i)
                      (fsub (p ! t ! i) (avg_costs (compute_realized_pnl p u) ! (t - 1) ! i)))
                (realized_pnl (compute_realized_pnl p u) ! t ! i)"
proof -
  note f = step_facts [OF assms]
  have "mtm_pnl (compute_realized_pnl p u) ! t ! i =
          fsub (fmul (u ! (t - 1) ! i)
                     (fsub (p ! t ! i) (avg_costs (compute_realized_pnl p u) ! (t - 1) ! i)))
               (realized_row (p ! t) (u ! t) (u ! (t - 1))
                  (avg_costs (compute_realized_pnl p u) ! (t - 1)) ! i)"
    unfolding final_row_pos(3) [OF f(1) assms(3)]
    by (rule mtm_row_nth [OF f(2) f(3) f(4) f(5)])
  then show ?thesis
    unfolding final_row_pos(2) [OF f(1) assms(3)] .
qed

lemma first_entries:
  assumes "shape p T N" and "shape u T N" and "0 < T" and "i < N"
  shows "avg_costs (compute_realized_pnl p u) ! 0 ! i =
           (if fgreater (u ! 0 ! i) eps then p ! 0 ! i else Num 0)"
    and "realized_pnl (compute_realized_pnl p u) ! 0 ! i = Num 0"
    and "mtm_pnl (compute_realized_pnl p u) ! 0 ! i = Num 0"
    and "trades (compute_realized_pnl p u) ! 0 ! i = Num 0"
proof -
  have T: "0 < min (length p) (length u)" using assms by (simp add: shape_min)
  have len: "i < length (u ! 0)" "i < length (p ! 0)"
    using assms by (simp_all add: shape_row)
  show "avg_costs (compute_realized_pnl p u) ! 0 ! i =
           (if fgreater (u ! 0 ! i) eps then p ! 0 ! i else Num 0)"
    unfolding final_row_0(1) [OF T] by (rule first_avg_row_nth [OF len])
  show "realized_pnl (compute_realized_pnl p u) ! 0 ! i = Num 0"
    unfolding final_row_0(2) [OF T] by (rule zeros_like_nth [OF assms(1,3,4)])
  show "mtm_pnl (compute_realized_pnl p u) ! 0 ! i = Num 0"
    unfolding final_row_0(3) [OF T] by (rule zeros_like_nth [OF assms(1,3,4)])
  show "trades (compute_realized_pnl p u) ! 0 ! i = Num 0"
    unfolding final_row_0(4) [OF T] by (rule zeros_like_nth [OF assms(1,3,4)])
qed

subsection \<open>Claims on single steps\<close>

text \<open>
  C1. At every step \<open>t > 0\<close> and every instrument \<open>i\<close>, with
  \<open>delta = units[t,i] - units[t-1,i]\<close>: the realized P\&L is
  \<open>-delta * (prices[t,i] - avg_cost[t-1,i])\<close> when \<open>delta < -1e-16\<close> (a sell) and zero
  otherwise; a step is never both a purchase and a sell.
\<close>

theorem realized_pnl_recurrence:
  assumes "shape ps T N" and "shape us T N" and "0 < t" and "t < T" and "i < N"
  shows "let s = compute_realized_pnl ps us;
             delta = fsub (us ! t ! i) (us ! (t - 1) ! i)
         in realized_pnl s ! t ! i =
              (if fless delta (- eps)
               then fmul (fneg delta) (fsub (ps ! t ! i) (avg_costs s ! (t - 1) ! i))
               else Num 0)
            \<and> \<not> (fgreater delta eps \<and> fless delta (- eps))"
  using realized_entry [OF assms] purchase_sell_exclusive by (simp add: Let_def)

theorem realized_pnl_recurrence_witness:
  "shape ex_prices 5 1 \<and> shape ex_units 5 1 \<and>
   realized_pnl (compute_realized_pnl ex_prices ex_units) ! 3 ! 0 =
     fmul (Num 5) (fsub (Num 12) (avg_costs (compute_realized_pnl ex_prices ex_units) ! 2 ! 0))"
  using realized_pnl_recurrence [of ex_prices 5 1 ex_units 3 0]
  by (simp add: shape_def ex_prices_def ex_units_def Let_def fsub_def eps_def)

text \<open>
  C2. At every step \<open>t > 0\<close> and every instrument \<open>i\<close>: on a purchase
  (\<open>delta > 1e-16\<close>) the average cost becomes
  \<open>(delta * prices[t,i] + units[t-1,i] * avg_cost[t-1,i]) / units[t,i]\<close>, and otherwise it is
  carried forward unchanged, whatever \<open>units[t,i]\<close> is.
\<close>

theorem avg_cost_recurrence:
  assumes "shape ps T N" and "shape us T N" and "0 < t" and "t < T" and "i < N"
  shows "let s = compute_realized_pnl ps us;
             delta = fsub (us ! t ! i) (us ! (t - 1) ! i)
         in avg_costs s ! t ! i =
              (if fgreater delta eps
               then fdiv (fadd (fmul delta (ps ! t ! i))
                               (fmul (us ! (t - 1) ! i) (avg_costs s ! (t - 1) ! i)))
                         (us ! t ! i)
               else avg_costs s ! (t - 1) ! i)"
  using avg_entry [OF assms] by (simp add: Let_def)

theorem avg_cost_recurrence_witness:
  "shape ex_prices 5 1 \<and> shape ex_units 5 1 \<and>
   avg_costs (compute_realized_pnl ex_prices ex_units) ! 1 ! 0 =
     fdiv (fadd (Num 100) (fmul (Num 0) (avg_costs (compute_realized_pnl ex_prices ex_units) ! 0 ! 0)))
          (Num 10)"
  using avg_cost_recurrence [of ex_prices 5 1 ex_units 1 0]
  by (simp add: shape_def ex_prices_def ex_units_def Let_def fsub_def eps_def)

text \<open>
  C5. At the first step, for every instrument \<open>i\<close>: the average cost is \<open>prices[0,i]\<close> if
  \<open>units[0,i] > 1e-16\<close> and zero otherwise, and the realized P\&L, the mark-to-market P\&L
  and the trade delta are zero.
\<close>

theorem first_step_values:
  assumes "shape ps T N" and "shape us T N" and "0 < T" and "i < N"
  shows "let s = compute_realized_pnl ps us
         in avg_costs s ! 0 ! i = (if fgreater (us ! 0 ! i) eps then ps ! 0 ! i else Num 0)
            \<and> realized_pnl s ! 0 ! i = Num 0
            \<and> mtm_pnl s ! 0 ! i = Num 0
            \<and> trades s ! 0 ! i = Num 0"
  using first_entries [OF assms] by (simp add: Let_def)

theorem first_step_values_witness:
  "shape held_prices 2 1 \<and> shape held_units 2 1 \<and>
   avg_costs (compute_realized_pnl held_prices held_units) ! 0 ! 0 = Num 10 \<and>
   realized_pnl (compute_realized_pnl held_prices held_units) ! 0 ! 0 = Num 0 \<and>
   mtm_pnl (compute_realized_pnl held_prices held_units) ! 0 ! 0 = Num 0 \<and>
   trades (compute_realized_pnl held_prices held_units) ! 0 ! 0 = Num 0"
  using first_step_values [of held_prices 2 1 held_units 0]
  by (simp add: shape_def held_prices_def held_units_def Let_def eps_def)

subsection \<open>Long-only inputs\<close>

lemma long_only_entry:
  assumes "long_only u" "shape u T N" "t < T" "i < N"
  obtains x where "u ! t ! i = Num x" "0 \<le> x"
proof -
  have "u ! t \<in> set u" using assms by (simp add: shape_def)
  moreover have "u ! t ! i \<in> set (u ! t)" using assms by (simp add: shape_row)
  ultimately have "nonneg (u ! t ! i)"
    using assms(1) by (simp add: long_only_def list_all_iff)
  then show ?thesis using that by (cases "u ! t ! i") simp_all
qed

lemma eps_pos: "0 < eps"
  by (simp add: eps_def)

lemma purchase_divisor_positive:
  assumes "long_only u" "shape u T N" "0 < t" "t < T" "i < N"
    and "fgreater (fsub (u ! t ! i) (u ! (t - 1) ! i)) eps"
  obtains x where "u ! t ! i = Num x" "0 < x"
proof -
  obtain x1 where x1: "u ! t ! i = Num x1" "0 \<le> x1"
    using long_only_entry [OF assms(1,2,4,5)] by blast
  have "t - 1 < T" using assms(4) by arith
  then obtain x0 where x0: "u ! (t - 1) ! i = Num x0" "0 \<le> x0"
    using long_only_entry [OF assms(1,2) _ assms(5)] by blast
  have "eps < x1 - x0" using assms(6) x1 x0 by (simp add: fsub_def)
  then have "0 < x1" using x0(2) eps_pos by linarith
  then show ?thesis using that x1 by blast
qed

lemma long_only_at_entry:
  assumes "long_only_at u i" "shape u T N" "t < T"
  obtains x where "u ! t ! i = Num x" "0 \<le> x"
proof -
  have "t < length (column u i)" using assms(2,3) by (simp add: column_def shape_def)
  then have "nonneg (column u i ! t)"
    using assms(1) by (simp add: long_only_at_def list_all_length)
  moreover have "column u i ! t = u ! t ! i"
    using assms(2,3) by (simp add: column_def shape_def)
  ultimately have "nonneg (u ! t ! i)" by simp
  then show ?thesis using that by (cases "u ! t ! i") simp_all
qed

lemma finite_at_entry:
  assumes "finite_at p i" "shape p T N" "t < T"
  obtains x where "p ! t ! i = Num x"
proof -
  have "t < length (column p i)" using assms(2,3) by (simp add: column_def shape_def)
  then have "finite_val (column p i ! t)"
    using assms(1) by (simp add: finite_at_def list_all_length)
  moreover have "column p i ! t = p ! t ! i"
    using assms(2,3) by (simp add: column_def shape_def)
  ultimately have "finite_val (p ! t ! i)" by simp
  then show ?thesis using that by (cases "p ! t ! i") simp_all
qed

subsection \<open>Realized and mark-to-market P\&L against the marked gain\<close>

lemma fsum_snoc: "fsum (xs @ [x]) = fadd (fsum xs) x"
  by (simp add: fsum_def)

lemma column_take_Suc:
  assumes "t < length m"
  shows "take (Suc t) (column m i) = take t (column m i) @ [m ! t ! i]"
  using assms by (simp add: column_def take_Suc_conv_app_nth)

lemma mtm_gain_0: "mtm_gain u p i 0 = 0"
  by (simp add: mtm_gain_def)

lemma mtm_gain_Suc:
  "mtm_gain u p i (Suc t) =
     mtm_gain u p i t + val (u ! t ! i) * (val (p ! Suc t ! i) - val (p ! t ! i))"
  by (simp add: mtm_gain_def)

lemma no_small_trades_first:
  assumes "no_small_trades u i" "0 < length u"
  shows "trade_sized (u ! 0 ! i)"
proof -
  have "take 1 (column u i) = [u ! 0 ! i]"
    using assms(2) by (cases u) (simp_all add: column_def)
  then show ?thesis using assms(1) by (simp add: no_small_trades_def Let_def)
qed

lemma no_small_trades_step:
  assumes "no_small_trades u i" "Suc t < length u"
  shows "trade_sized (fsub (u ! Suc t ! i) (u ! t ! i))"
proof -
  let ?c = "column u i"
  have len: "length ?c = length u" by (simp add: column_def)
  have "list_all trade_sized (map2 fsub (tl ?c) ?c)"
    using assms(1) by (simp add: no_small_trades_def Let_def)
  moreover have "t < length (map2 fsub (tl ?c) ?c)" using assms(2) len by simp
  ultimately have "trade_sized (map2 fsub (tl ?c) ?c ! t)"
    by (simp add: list_all_length)
  moreover have "map2 fsub (tl ?c) ?c ! t = fsub (u ! Suc t ! i) (u ! t ! i)"
    using assms(2) len by (simp add: nth_tl column_def)
  ultimately show ?thesis by simp
qed

lemma pnl_invariant:
  assumes "shape p T N" "shape u T N" "long_only_at u i" "finite_at p i" "no_small_trades u i"
    and "t < T" "i < N"
  defines "s \<equiv> compute_realized_pnl p u"
  shows "\<exists>a R. avg_costs s ! t ! i = Num a
           \<and> fsum (take (Suc t) (column (realized_pnl s) i)) = Num R
           \<and> R + val (u ! t ! i) * (val (p ! t ! i) - a) = mtm_gain u p i t
           \<and> mtm_pnl s ! t ! i = Num (mtm_gain u p i t - R)"
  using assms(6)
proof (induction t)
  case 0
  have lenR: "0 < length (realized_pnl s)"
    using assms(1) 0 by (simp add: s_def compute_realized_pnl_def run_lengths shape_def)
  have lu: "0 < length u" using assms(2) 0 by (simp add: shape_def)
  obtain u0 where u0: "u ! 0 ! i = Num u0" "0 \<le> u0"
    using long_only_at_entry [OF assms(3,2) 0] by blast
  obtain p0 where p0: "p ! 0 ! i = Num p0"
    using finite_at_entry [OF assms(4,1) 0] by blast
  have sized: "u0 = 0 \<or> eps < u0"
    using no_small_trades_first [OF assms(5) lu] u0 by auto
  note fe = first_entries [OF assms(1,2) 0 assms(7), folded s_def]
  have A: "avg_costs s ! 0 ! i = Num (if eps < u0 then p0 else 0)"
    using fe(1) u0 p0 by simp
  have R: "fsum (take (Suc 0) (column (realized_pnl s) i)) = Num 0"
    using column_take_Suc [OF lenR, of i] fe(2) by (simp add: fsum_def)
  have M: "mtm_pnl s ! 0 ! i = Num 0" using fe(3) .
  have "(0::real) + val (u ! 0 ! i) * (val (p ! 0 ! i) - (if eps < u0 then p0 else 0)) = 0"
    using sized u0 p0 eps_pos by auto
  then show ?case using A R M by (simp add: mtm_gain_0)
next
  case (Suc t)
  have t: "t < T" using Suc.prems by simp
  from Suc.IH [OF t] obtain a0 R0 where
    a0: "avg_costs s ! t ! i = Num a0" and
    R0: "fsum (take (Suc t) (column (realized_pnl s) i)) = Num R0" and
    I0: "R0 + val (u ! t ! i) * (val (p ! t ! i) - a0) = mtm_gain u p i t"
    by blast
  obtain x0 where x0: "u ! t ! i = Num x0" "0 \<le> x0"
    using long_only_at_entry [OF assms(3,2) t] by blast
  obtain x1 where x1: "u ! Suc t ! i = Num x1" "0 \<le> x1"
    using long_only_at_entry [OF assms(3,2) Suc.prems] by blast
  obtain p0 where p0: "p ! t ! i = Num p0"
    using finite_at_entry [OF assms(4,1) t] by blast
  obtain p1 where p1: "p ! Suc t ! i = Num p1"
    using finite_at_entry [OF assms(4,1) Suc.prems] by blast
  have lu: "Suc t < length u" using assms(2) Suc.prems by (simp add: shape_def)
  have lenR: "Suc t < length (realized_pnl s)"
    using assms(1) Suc.prems by (simp add: s_def compute_realized_pnl_def run_lengths shape_def)
  have d: "fsub (u ! Suc t ! i) (u ! t ! i) = Num (x1 - x0)"
    using x0 x1 by (simp add: fsub_def)
  have sized: "x1 - x0 = 0 \<or> eps < \<bar>x1 - x0\<bar>"
    using no_small_trades_step [OF assms(5) lu] d by simp
  have I0': "R0 + x0 * (p0 - a0) = mtm_gain u p i t"
    using I0 x0 p0 by simp
  have G: "mtm_gain u p i (Suc t) = mtm_gain u p i t + x0 * (p1 - p0)"
    using x0 p0 p1 by (simp add: mtm_gain_Suc)
  define r where "r = (if x1 - x0 < - eps then - (x1 - x0) * (p1 - a0) else 0)"
  define a1 where "a1 = (if eps < x1 - x0 then ((x1 - x0) * p1 + x0 * a0) / x1 else a0)"
  have Re: "realized_pnl s ! Suc t ! i = Num r"
    using realized_entry [OF assms(1,2) _ Suc.prems assms(7), folded s_def] d a0 p1
    by (simp add: r_def fsub_def)
  have x1pos: "0 < x1" if "eps < x1 - x0"
    using that x0(2) eps_pos by linarith
  have Ae: "avg_costs s ! Suc t ! i = Num a1"
  proof (cases "eps < x1 - x0")
    case True
    then have "x1 \<noteq> 0" using x1pos by auto
    then show ?thesis
      using avg_entry [OF assms(1,2) _ Suc.prems assms(7), folded s_def] d a0 p1 x0 x1 True
      by (simp add: a1_def)
  next
    case False
    then show ?thesis
      using avg_entry [OF assms(1,2) _ Suc.prems assms(7), folded s_def] d a0 x0 x1
      by (simp add: a1_def)
  qed
  have Me: "mtm_pnl s ! Suc t ! i = Num (x0 * (p1 - a0) - r)"
    using mtm_entry [OF assms(1,2) _ Suc.prems assms(7), folded s_def] Re a0 p1 x0
    by (simp add: fsub_def)
  have Rs: "fsum (take (Suc (Suc t)) (column (realized_pnl s) i)) = Num (R0 + r)"
    using column_take_Suc [OF lenR, of i] R0 Re by (simp add: fsum_snoc)
  have key: "r + x1 * (p1 - a1) = x0 * (p1 - a0)"
  proof -
    consider (buy) "eps < x1 - x0" | (sell) "x1 - x0 < - eps" | (none) "x1 - x0 = 0"
      using sized by fastforce
    then show ?thesis
    proof cases
      case buy
      then have "x1 \<noteq> 0" using x1pos by auto
      then have "x1 * a1 = (x1 - x0) * p1 + x0 * a0"
        using buy by (simp add: a1_def)
      moreover have "r = 0" using buy eps_pos by (simp add: r_def)
      ultimately show ?thesis by (simp add: algebra_simps)
    next
      case sell
      then have "a1 = a0" using eps_pos by (simp add: a1_def)
      moreover have "r = - (x1 - x0) * (p1 - a0)" using sell by (simp add: r_def)
      ultimately show ?thesis by (simp add: algebra_simps)
    next
      case none
      then have "a1 = a0" "r = 0" "x1 = x0" using eps_pos by (simp_all add: a1_def r_def)
      then show ?thesis by simp
    qed
  qed
  have I1: "(R0 + r) + val (u ! Suc t ! i) * (val (p ! Suc t ! i) - a1) = mtm_gain u p i (Suc t)"
    using key I0' G x1 p1 by (simp add: algebra_simps)
  have M1: "x0 * (p1 - a0) - r = mtm_gain u p i (Suc t) - (R0 + r)"
    using I0' G by (simp add: algebra_simps)
  show ?case using Ae Rs I1 Me M1 by simp
qed

text \<open>
  In exact arithmetic. The running total of the method \<open>PortfolioData.compute_realized_pnl\<close>: the realized P\&L
  cumulated through step \<open>t\<close>, plus the mark-to-market P\&L of step \<open>t\<close> alone, is the gain of
  marking the position to market up to \<open>t\<close>.
\<close>

lemma running_total_pnl:
  assumes "shape p T N" "shape u T N" "long_only_at u i" "finite_at p i" "no_small_trades u i"
    and "t < T" "i < N"
  shows "fadd (fsum (take (Suc t) (column (realized_pnl (compute_realized_pnl p u)) i)))
              (mtm_pnl (compute_realized_pnl p u) ! t ! i) = Num (mtm_gain u p i t)"
proof -
  from pnl_invariant [OF assms] obtain R where
    "fsum (take (Suc t) (column (realized_pnl (compute_realized_pnl p u)) i)) = Num R"
    "mtm_pnl (compute_realized_pnl p u) ! t ! i = Num (mtm_gain u p i t - R)"
    by blast
  then show ?thesis by simp
qed


subsection \<open>Claims on division and on the summed P\&L\<close>

lemma loop_body_divisions:
  "divisions (loop_body p u s idx) =
     (if idx = 0 then divisions s
      else divisions s @ [(numer_row (p ! idx) (u ! idx) (u ! (idx - 1)) (avg_costs s ! (idx - 1)),
                           u ! idx)])"
  by (cases idx) (simp_all add: loop_body_0 loop_body_pos)

lemma run_divisions_length: "length (divisions (run p u k)) = k - 1"
  by (induction k) (simp_all add: run_0 run_Suc loop_body_divisions init_state_def)

lemma run_divisions_nth:
  assumes "0 < t" "t < k"
  shows "snd (divisions (run p u k) ! (t - 1)) = u ! t"
  using assms
proof (induction k)
  case 0
  then show ?case by simp
next
  case (Suc k)
  have k: "0 < k" using Suc.prems by simp
  show ?case
  proof (cases "t = k")
    case True
    then show ?thesis
      using k by (simp add: run_Suc loop_body_divisions nth_append run_divisions_length)
  next
    case False
    then have "t < k" using Suc.prems by simp
    then have "t - 1 < length (divisions (run p u k))"
      using Suc.prems(1) by (simp add: run_divisions_length)
    then show ?thesis
      using Suc.IH [OF Suc.prems(1) \<open>t < k\<close>] k
      by (simp add: run_Suc loop_body_divisions nth_append)
  qed
qed

text \<open>
  C4, as the code has it. For long-only units, at every step \<open>t > 0\<close>: a purchase
  (\<open>delta > 1e-16\<close>) implies \<open>units[t,i] > 0\<close>, so the quotient that \<open>np.where\<close> selects is
  never one by zero, and where \<open>units[t,i] = 0\<close> the average cost is carried forward. The
  division itself is not guarded: \<open>np.true_divide\<close> is called once at every step \<open>t > 0\<close>,
  with the whole row \<open>units[t]\<close> as denominators.
\<close>

theorem purchase_division_safe:
  assumes "shape ps T N" and "shape us T N" and "long_only us"
    and "0 < t" and "t < T" and "i < N"
  shows "let s = compute_realized_pnl ps us;
             delta = fsub (us ! t ! i) (us ! (t - 1) ! i)
         in (fgreater delta eps \<longrightarrow> fgreater (us ! t ! i) 0)
            \<and> (us ! t ! i = Num 0 \<longrightarrow> avg_costs s ! t ! i = avg_costs s ! (t - 1) ! i)
            \<and> length (divisions s) = T - 1
            \<and> snd (divisions s ! (t - 1)) = us ! t"
proof -
  let ?d = "fsub (us ! t ! i) (us ! (t - 1) ! i)"
  have pos: "fgreater (us ! t ! i) 0" if d: "fgreater ?d eps"
  proof -
    obtain x where "us ! t ! i = Num x" "0 < x"
      using purchase_divisor_positive [OF assms(3,2,4,5,6) d] by blast
    then show ?thesis by simp
  qed
  then have "\<not> fgreater ?d eps" if "us ! t ! i = Num 0"
    using that by auto
  then have carried: "avg_costs (compute_realized_pnl ps us) ! t ! i =
               avg_costs (compute_realized_pnl ps us) ! (t - 1) ! i"
    if "us ! t ! i = Num 0"
    using that avg_entry [OF assms(1,2,4,5,6)] by simp
  have T: "min (length ps) (length us) = T" using assms(1,2) by (rule shape_min)
  have len: "length (divisions (compute_realized_pnl ps us)) = T - 1"
    by (simp add: compute_realized_pnl_def T run_divisions_length)
  have whole: "snd (divisions (compute_realized_pnl ps us) ! (t - 1)) = us ! t"
    using run_divisions_nth [OF assms(4,5)] by (simp add: compute_realized_pnl_def T)
  show ?thesis
    using pos carried len whole by (simp add: Let_def)
qed

theorem purchase_division_safe_witness:
  "shape held_prices 2 1 \<and> shape held_units 2 1 \<and> long_only held_units \<and>
   avg_costs (compute_realized_pnl held_prices held_units) ! 1 ! 0 =
     avg_costs (compute_realized_pnl held_prices held_units) ! 0 ! 0 \<and>
   length (divisions (compute_realized_pnl held_prices held_units)) = 1 \<and>
   snd (divisions (compute_realized_pnl held_prices held_units) ! 0) = [Num 0]"
  using purchase_division_safe [of held_prices 2 1 held_units 1 0]
  by (auto simp add: shape_def held_prices_def held_units_def long_only_def
        Let_def fsub_def eps_def)

text \<open>
  C4, as stated, fails: the division is not skipped where \<open>units[t,i] = 0\<close>. In the
  long-only run below the second step is a sell down to zero units, and
  \<open>np.true_divide\<close> is called with the denominator row \<open>[0]\<close>; its quotient is discarded by
  \<open>np.where\<close>, which keeps the prior average cost \<open>10\<close>.
\<close>

theorem zero_units_division_evaluated:
  "long_only held_units \<and>
   divisions (compute_realized_pnl held_prices held_units) = [([Num (- 20)], [Num 0])] \<and>
   avg_costs (compute_realized_pnl held_prices held_units) = [[Num 10], [Num 10]]"
  by (simp add: held_prices_def held_units_def long_only_def compute_realized_pnl_def run_def
        loop_body_def init_state_def zeros_like_def np_where_def np_where_scalar_def eps_def
        fsub_def upt_rec Let_def)




section \<open>Properties of frames\<close>

lemma shift_rows_length: "length (shift_rows n rs) = length rs"
  by (cases rs rule: rev_cases) (simp_all add: shift_rows_def)

lemma shift_rows_nth:
  assumes "t < length rs"
  shows "shift_rows n rs ! t = (if t = 0 then replicate n NaN else rs ! (t - 1))"
proof (cases t)
  case 0
  then show ?thesis using assms by (auto simp add: shift_rows_def)
next
  case (Suc k)
  then have "k < length (butlast rs)" using assms by simp
  then have "butlast rs ! k = rs ! k" by (rule nth_butlast)
  then show ?thesis using Suc assms by (auto simp add: shift_rows_def)
qed

lemma wf_frame_row: "wf_frame f \<Longrightarrow> t < length (index f) \<Longrightarrow> length (cells f ! t) = length (columns f)"
  by (simp add: wf_frame_def shape_row)

lemma wf_frame_rows: "wf_frame f \<Longrightarrow> length (cells f) = length (index f)"
  by (simp add: wf_frame_def shape_def)

lemma shift1_cell:
  assumes "wf_frame f" "t < length (index f)" "i < length (columns f)"
  shows "cells (shift1 f) ! t ! i = (if t = 0 then NaN else cells f ! (t - 1) ! i)"
  using assms by (simp add: shift1_def shift_rows_nth wf_frame_rows)

lemma shift1_row_length:
  assumes "wf_frame f" "t < length (index f)"
  shows "length (cells (shift1 f) ! t) = length (columns f)"
proof -
  have "t - 1 < length (index f)" using assms(2) by arith
  then show ?thesis
    using assms wf_frame_row [of f "t - 1"] by (simp add: shift1_def shift_rows_nth wf_frame_rows)
qed

lemma shift1_labels: "index (shift1 f) = index f" "columns (shift1 f) = columns f"
  "length (cells (shift1 f)) = length (cells f)"
  by (simp_all add: shift1_def shift_rows_length)

lemma pct_change_labels: "index (pct_change f) = index f" "columns (pct_change f) = columns f"
  "length (cells (pct_change f)) = length (cells f)"
  by (simp_all add: pct_change_def shift1_labels)

lemma pct_change_cell:
  assumes "wf_frame f" "t < length (index f)" "i < length (columns f)"
  shows "cells (pct_change f) ! t ! i =
           fsub (fdiv (cells f ! t ! i) (if t = 0 then NaN else cells f ! (t - 1) ! i)) (Num 1)"
    and "length (cells (pct_change f) ! t) = length (columns f)"
  using assms shift1_cell [OF assms] shift1_row_length [OF assms(1,2)]
  by (simp_all add: pct_change_def shift1_labels wf_frame_rows wf_frame_row)

lemma binop_same_labels:
  assumes "same_labels a b"
  shows "binop g a b = \<lparr>index = index a, columns = columns a, cells = map2 (map2 g) (cells a) (cells b)\<rparr>"
  using assms by (simp add: binop_def align_def)

lemma default_instrument_pnl_cell:
  assumes "wf_frame ps" "wf_frame ws" "same_labels ps ws"
    and "t < length (index ps)" "i < length (columns ps)"
  shows "cells (default_instrument_pnl ps ws) ! t ! i =
     (let x = fmul (fsub (fdiv (cells ps ! t ! i) (if t = 0 then NaN else cells ps ! (t - 1) ! i)) (Num 1))
                   (if t = 0 then NaN else cells ws ! (t - 1) ! i)
      in if is_nan x then Num 0 else x)"
    and "index (default_instrument_pnl ps ws) = index ps"
    and "columns (default_instrument_pnl ps ws) = columns ps"
proof -
  have sl: "same_labels (pct_change ps) (shift1 ws)"
    using assms(3) by (simp add: same_labels_def pct_change_labels shift1_labels)
  have tw: "t < length (index ws)" "i < length (columns ws)"
    using assms(3,4,5) by (simp_all add: same_labels_def)
  have m: "multiply (pct_change ps) (shift1 ws) =
        \<lparr>index = index ps, columns = columns ps,
         cells = map2 (map2 fmul) (cells (pct_change ps)) (cells (shift1 ws))\<rparr>"
    unfolding multiply_def binop_same_labels [OF sl] by (simp add: pct_change_labels)
  have c: "map2 (map2 fmul) (cells (pct_change ps)) (cells (shift1 ws)) ! t ! i =
        fmul (cells (pct_change ps) ! t ! i) (cells (shift1 ws) ! t ! i)"
    using assms(1,2,4,5) tw pct_change_cell(2) [OF assms(1,4,5)] shift1_row_length [OF assms(2) tw(1)]
    by (simp add: pct_change_labels shift1_labels wf_frame_rows)
  have len: "t < length (map2 (map2 fmul) (cells (pct_change ps)) (cells (shift1 ws)))"
    using assms(1,2,4) tw by (simp add: pct_change_labels shift1_labels wf_frame_rows)
  have leni: "i < length (map2 (map2 fmul) (cells (pct_change ps)) (cells (shift1 ws)) ! t)"
    using assms(1,2,4,5) tw pct_change_cell(2) [OF assms(1,4,5)] shift1_row_length [OF assms(2) tw(1)]
    by (simp add: pct_change_labels shift1_labels wf_frame_rows)
  show "cells (default_instrument_pnl ps ws) ! t ! i =
     (let x = fmul (fsub (fdiv (cells ps ! t ! i) (if t = 0 then NaN else cells ps ! (t - 1) ! i)) (Num 1))
                   (if t = 0 then NaN else cells ws ! (t - 1) ! i)
      in if is_nan x then Num 0 else x)"
    using len leni c pct_change_cell(1) [OF assms(1,4,5)] shift1_cell [OF assms(2) tw]
    by (simp add: default_instrument_pnl_def fillna_def m Let_def)
  show "index (default_instrument_pnl ps ws) = index ps"
    by (simp add: default_instrument_pnl_def fillna_def m)
  show "columns (default_instrument_pnl ps ws) = columns ps"
    by (simp add: default_instrument_pnl_def fillna_def m)
qed

subsection \<open>Alignment by label\<close>

lemma pos_of_less: "pos_of x xs = Some t \<Longrightarrow> t < length xs"
  by (induction xs arbitrary: t) (auto split: if_splits)

lemma shape_map2:
  assumes "shape A T N" "shape B T N"
  shows "shape (map2 (map2 g) A B) T N"
proof -
  have "length r = N" if "r \<in> set (map2 (map2 g) A B)" for r
  proof -
    from that obtain x y where xy: "(x, y) \<in> set (zip A B)" and r: "r = map2 g x y" by auto
    have "x \<in> set A" "y \<in> set B" using xy by (auto dest: set_zip_leftD set_zip_rightD)
    then show ?thesis using assms r by (simp add: shape_def)
  qed
  then show ?thesis using assms by (simp add: shape_def)
qed

lemma shape_shift_rows:
  assumes "shape m T N"
  shows "shape (shift_rows N m) T N"
proof -
  have "length r = N" if "r \<in> set (shift_rows N m)" for r
  proof (cases "m = []")
    case True
    then show ?thesis using that by (simp add: shift_rows_def)
  next
    case False
    then have "r = replicate N NaN \<or> r \<in> set (butlast m)"
      using that by (simp add: shift_rows_def)
    then show ?thesis using assms by (auto simp add: shape_def dest: in_set_butlastD)
  qed
  then show ?thesis using assms by (simp add: shape_def shift_rows_length)
qed

lemma binop_labels:
  "index (binop g a b) = union_labels (index a) (index b)"
  "columns (binop g a b) = union_labels (columns a) (columns b)"
  by (auto simp add: binop_def align_def same_labels_def union_labels_def reindex_def Let_def)

lemma binop_wf:
  assumes "wf_frame a" "wf_frame b"
  shows "wf_frame (binop g a b)"
proof (cases "same_labels a b")
  case True
  then have "shape (cells b) (length (index a)) (length (columns a))"
    using assms(2) by (simp add: wf_frame_def same_labels_def)
  from shape_map2 [OF _ this, of "cells a" g] show ?thesis
    using assms(1) True by (simp add: wf_frame_def binop_def align_def)
next
  case False
  let ?idx = "union_labels (index a) (index b)" and ?cols = "union_labels (columns a) (columns b)"
  have "shape (cells (reindex a ?idx ?cols)) (length ?idx) (length ?cols)"
       "shape (cells (reindex b ?idx ?cols)) (length ?idx) (length ?cols)"
    by (simp_all add: reindex_def shape_def)
  from shape_map2 [OF this, of g] show ?thesis
    using False by (simp add: wf_frame_def binop_def align_def Let_def reindex_def)
qed

lemma union_labels_same: "union_labels xs xs = xs"
  by (simp add: union_labels_def)

lemma pos_of_nth: "pos_of x xs = Some t \<Longrightarrow> xs ! t = x"
  by (induction xs arbitrary: t) (auto split: if_splits)

lemma pos_of_mem: "x \<in> set xs \<Longrightarrow> \<exists>t. pos_of x xs = Some t"
  by (induction xs) auto

lemma lookup_cell:
  assumes "pos_of d (index f) = Some t" "pos_of c (columns f) = Some i"
  shows "lookup f d c = cells f ! t ! i"
  using assms by (simp add: lookup_def)

lemma lookup_missing:
  assumes "pos_of d (index f) = None \<or> pos_of c (columns f) = None"
  shows "lookup f d c = NaN"
  using assms by (auto simp add: lookup_def split: option.splits)

lemma binop_lookup:
  assumes "wf_frame a" "wf_frame b"
    and "d \<in> set (index (binop g a b))" "c \<in> set (columns (binop g a b))"
  shows "lookup (binop g a b) d c = g (lookup a d c) (lookup b d c)"
proof -
  obtain t i where t: "pos_of d (index (binop g a b)) = Some t"
    and i: "pos_of c (columns (binop g a b)) = Some i"
    using pos_of_mem assms(3,4) by metis
  note tl = pos_of_less [OF t] and il = pos_of_less [OF i]
  show ?thesis
  proof (cases "same_labels a b")
    case True
    then have ia: "index (binop g a b) = index a" "columns (binop g a b) = columns a"
      and ib: "index b = index a" "columns b = columns a"
      by (simp_all add: binop_def align_def same_labels_def)
    have c: "cells (binop g a b) = map2 (map2 g) (cells a) (cells b)"
      using True by (simp add: binop_def align_def)
    have la: "t < length (cells a)" "t < length (cells b)"
      using tl assms(1,2) ia ib by (simp_all add: wf_frame_rows)
    have ra: "i < length (cells a ! t)" "i < length (cells b ! t)"
      using il tl assms(1,2) ia ib by (simp_all add: wf_frame_row)
    have "lookup (binop g a b) d c = g (cells a ! t ! i) (cells b ! t ! i)"
      unfolding lookup_cell [OF t i] c using la ra by simp
    moreover have "lookup a d c = cells a ! t ! i" "lookup b d c = cells b ! t ! i"
      using t i ia ib by (simp_all add: lookup_def)
    ultimately show ?thesis by simp
  next
    case False
    let ?idx = "union_labels (index a) (index b)" and ?cols = "union_labels (columns a) (columns b)"
    have ia: "index (binop g a b) = ?idx" "columns (binop g a b) = ?cols"
      by (simp_all add: binop_labels)
    have c: "cells (binop g a b) =
               map2 (map2 g) (map (\<lambda>d. map (\<lambda>c. lookup a d c) ?cols) ?idx)
                             (map (\<lambda>d. map (\<lambda>c. lookup b d c) ?cols) ?idx)"
      using False by (simp add: binop_def align_def Let_def reindex_def)
    have "lookup (binop g a b) d c = g (lookup a (?idx ! t) (?cols ! i)) (lookup b (?idx ! t) (?cols ! i))"
      unfolding lookup_cell [OF t i] c using tl il ia by simp
    then show ?thesis
      using pos_of_nth [OF t] pos_of_nth [OF i] ia by simp
  qed
qed

lemma fillna_lookup:
  assumes "wf_frame f" "d \<in> set (index f)" "c \<in> set (columns f)"
  shows "lookup (fillna v f) d c = (if is_nan (lookup f d c) then v else lookup f d c)"
proof -
  obtain t i where t: "pos_of d (index f) = Some t" and i: "pos_of c (columns f) = Some i"
    using pos_of_mem assms(2,3) by metis
  have "t < length (cells f)" "i < length (cells f ! t)"
    using pos_of_less [OF t] pos_of_less [OF i] assms(1) by (simp_all add: wf_frame_rows wf_frame_row)
  then show ?thesis
    using t i by (simp add: lookup_def fillna_def)
qed

lemma pct_change_wf: "wf_frame f \<Longrightarrow> wf_frame (pct_change f)"
  using shape_map2 [OF _ shape_shift_rows, of "cells f" "length (index f)" "length (columns f)"]
  by (simp add: wf_frame_def pct_change_def shift1_def)

lemma shift1_wf: "wf_frame f \<Longrightarrow> wf_frame (shift1 f)"
  using shape_shift_rows [of "cells f" "length (index f)" "length (columns f)"]
  by (simp add: wf_frame_def shift1_def)

lemma pct_change_lookup:
  assumes "wf_frame f"
  shows "lookup (pct_change f) d c =
     (case (pos_of d (index f), pos_of c (columns f)) of
        (Some t, Some i) \<Rightarrow>
          fsub (fdiv (cells f ! t ! i) (if t = 0 then NaN else cells f ! (t - 1) ! i)) (Num 1)
      | _ \<Rightarrow> NaN)"
proof (cases "pos_of d (index f)")
  case None
  then show ?thesis by (simp add: lookup_def pct_change_labels)
next
  case (Some t)
  show ?thesis
  proof (cases "pos_of c (columns f)")
    case None
    then show ?thesis using Some by (simp add: lookup_def pct_change_labels)
  next
    case (Some i)
    show ?thesis
      using pct_change_cell(1) [OF assms pos_of_less [OF \<open>pos_of d (index f) = Some t\<close>] pos_of_less [OF Some]]
        Some \<open>pos_of d (index f) = Some t\<close>
      by (simp add: lookup_def pct_change_labels)
  qed
qed

lemma shift1_lookup:
  assumes "wf_frame f"
  shows "lookup (shift1 f) d c =
     (case (pos_of d (index f), pos_of c (columns f)) of
        (Some t, Some i) \<Rightarrow> (if t = 0 then NaN else cells f ! (t - 1) ! i)
      | _ \<Rightarrow> NaN)"
proof (cases "pos_of d (index f)")
  case None
  then show ?thesis by (simp add: lookup_def shift1_labels)
next
  case (Some t)
  show ?thesis
  proof (cases "pos_of c (columns f)")
    case None
    then show ?thesis using Some by (simp add: lookup_def shift1_labels)
  next
    case (Some i)
    show ?thesis
      using shift1_cell [OF assms pos_of_less [OF \<open>pos_of d (index f) = Some t\<close>] pos_of_less [OF Some]]
        Some \<open>pos_of d (index f) = Some t\<close>
      by (simp add: lookup_def shift1_labels)
  qed
qed

section \<open>Properties of the construction\<close>

lemma post_init_fields:
  assumes "post_init rf a = Inr obj"
  shows "instrument_pnl_arg a = None \<Longrightarrow>
           instrument_pnl obj = default_instrument_pnl (prices obj) (weights obj)"
  using assms
  by (auto simp add: post_init_def Let_def split: sum.splits option.splits)

lemma default_instrument_pnl_lookup:
  assumes "wf_frame ps" "wf_frame ws"
    and "d \<in> set (index (default_instrument_pnl ps ws))"
    and "c \<in> set (columns (default_instrument_pnl ps ws))"
  shows "lookup (default_instrument_pnl ps ws) d c =
     (case (pos_of d (index ps), pos_of c (columns ps), pos_of d (index ws), pos_of c (columns ws)) of
        (Some t, Some i, Some t', Some i') \<Rightarrow>
          if t = 0 \<or> t' = 0 then Num 0
          else let pct = fsub (fdiv (cells ps ! t ! i) (cells ps ! (t - 1) ! i)) (Num 1);
                   x = fmul pct (cells ws ! (t' - 1) ! i')
               in if is_nan x then Num 0 else x
      | _ \<Rightarrow> Num 0)"
    and "index (default_instrument_pnl ps ws) = union_labels (index ps) (index ws)"
    and "columns (default_instrument_pnl ps ws) = union_labels (columns ps) (columns ws)"
proof -
  let ?m = "multiply (pct_change ps) (shift1 ws)"
  have wp: "wf_frame (pct_change ps)" and ww: "wf_frame (shift1 ws)"
    using assms(1,2) by (simp_all add: pct_change_wf shift1_wf)
  have wm: "wf_frame ?m" unfolding multiply_def using wp ww by (rule binop_wf)
  show i: "index (default_instrument_pnl ps ws) = union_labels (index ps) (index ws)"
    by (simp add: default_instrument_pnl_def fillna_def multiply_def binop_labels
          pct_change_labels shift1_labels)
  show c: "columns (default_instrument_pnl ps ws) = union_labels (columns ps) (columns ws)"
    by (simp add: default_instrument_pnl_def fillna_def multiply_def binop_labels
          pct_change_labels shift1_labels)
  have dm: "d \<in> set (index ?m)" "c \<in> set (columns ?m)"
    using assms(3,4) by (simp_all add: default_instrument_pnl_def fillna_def)
  have m: "lookup ?m d c = fmul (lookup (pct_change ps) d c) (lookup (shift1 ws) d c)"
    unfolding multiply_def using wp ww dm [unfolded multiply_def] by (rule binop_lookup)
  have f: "lookup (default_instrument_pnl ps ws) d c =
             (if is_nan (lookup ?m d c) then Num 0 else lookup ?m d c)"
    unfolding default_instrument_pnl_def using wm dm by (rule fillna_lookup)
  have n1: "fmul NaN y = NaN" for y by (cases y) simp_all
  have n2: "fmul y NaN = NaN" for y by (cases y) simp_all
  have n3: "fsub (fdiv y NaN) (Num 1) = NaN" for y by (cases y) (simp_all add: fsub_def)
  show "lookup (default_instrument_pnl ps ws) d c =
     (case (pos_of d (index ps), pos_of c (columns ps), pos_of d (index ws), pos_of c (columns ws)) of
        (Some t, Some i, Some t', Some i') \<Rightarrow>
          if t = 0 \<or> t' = 0 then Num 0
          else let pct = fsub (fdiv (cells ps ! t ! i) (cells ps ! (t - 1) ! i)) (Num 1);
                   x = fmul pct (cells ws ! (t' - 1) ! i')
               in if is_nan x then Num 0 else x
      | _ \<Rightarrow> Num 0)"
    unfolding f m pct_change_lookup [OF assms(1)] shift1_lookup [OF assms(2)]
    by (simp add: n1 n2 n3 Let_def split: option.splits)
qed

text \<open>
  C6. When no \<open>instrument_pnl\<close> is passed, the constructed \<open>instrument_pnl\<close> is labelled
  by the union of the labels of prices and weights, and its cell at date \<open>d\<close> and
  instrument \<open>c\<close> is the percentage change of the price of \<open>c\<close> from the date before
  \<open>d\<close> to \<open>d\<close> times the weight of \<open>c\<close> one row before \<open>d\<close> in the weights, with
  \<open>NaN\<close> replaced by zero: a first date, which has no earlier period, and a date or an
  instrument that prices or weights lack give zero. For prices and weights of the same
  labels this holds position by position.
\<close>

theorem instrument_pnl_default:
  assumes "post_init rf a = Inr obj" and "instrument_pnl_arg a = None"
    and "wf_frame (prices obj)" and "wf_frame (weights obj)"
    and "d \<in> set (index (instrument_pnl obj))" and "c \<in> set (columns (instrument_pnl obj))"
  shows "index (instrument_pnl obj) = union_labels (index (prices obj)) (index (weights obj))
         \<and> columns (instrument_pnl obj) = union_labels (columns (prices obj)) (columns (weights obj))
         \<and> lookup (instrument_pnl obj) d c =
             (case (pos_of d (index (prices obj)), pos_of c (columns (prices obj)),
                    pos_of d (index (weights obj)), pos_of c (columns (weights obj))) of
                (Some t, Some i, Some t', Some i') \<Rightarrow>
                  if t = 0 \<or> t' = 0 then Num 0
                  else let pct = fsub (fdiv (cells (prices obj) ! t ! i)
                                            (cells (prices obj) ! (t - 1) ! i)) (Num 1);
                           x = fmul pct (cells (weights obj) ! (t' - 1) ! i')
                       in if is_nan x then Num 0 else x
              | _ \<Rightarrow> Num 0)
         \<and> (same_labels (prices obj) (weights obj) \<longrightarrow>
              (\<forall>t < length (index (prices obj)). \<forall>i < length (columns (prices obj)).
                 cells (instrument_pnl obj) ! t ! i =
                   (if t = 0 then Num 0
                    else let pct = fsub (fdiv (cells (prices obj) ! t ! i)
                                              (cells (prices obj) ! (t - 1) ! i)) (Num 1);
                             x = fmul pct (cells (weights obj) ! (t - 1) ! i)
                         in if is_nan x then Num 0 else x)))"
proof -
  have e: "instrument_pnl obj = default_instrument_pnl (prices obj) (weights obj)"
    using post_init_fields [OF assms(1,2)] .
  have z: "is_nan (fmul (fsub (fdiv x NaN) (Num 1)) NaN)" for x
    by (cases x) (simp_all add: fsub_def)
  have pos: "cells (instrument_pnl obj) ! t ! i =
                   (if t = 0 then Num 0
                    else let pct = fsub (fdiv (cells (prices obj) ! t ! i)
                                              (cells (prices obj) ! (t - 1) ! i)) (Num 1);
                             x = fmul pct (cells (weights obj) ! (t - 1) ! i)
                         in if is_nan x then Num 0 else x)"
    if "same_labels (prices obj) (weights obj)"
       "t < length (index (prices obj))" "i < length (columns (prices obj))" for t i
    unfolding e
    using default_instrument_pnl_cell(1) [OF assms(3,4) that] z by (simp add: Let_def)
  show ?thesis
    using default_instrument_pnl_lookup [OF assms(3,4) assms(5,6) [unfolded e]] pos
    unfolding e by blast
qed

theorem instrument_pnl_default_witness:
  "\<exists>obj. post_init keep_frame part_args = Inr obj \<and> instrument_pnl_arg part_args = None
       \<and> wf_frame (prices obj) \<and> wf_frame (weights obj)
       \<and> \<not> same_labels (prices obj) (weights obj)
       \<and> 3 \<in> set (index (instrument_pnl obj)) \<and> ''a'' \<in> set (columns (instrument_pnl obj))
       \<and> columns (instrument_pnl obj) = [''a'', ''b'']
       \<and> lookup (instrument_pnl obj) 3 ''a'' = Num (1 / 5)"
proof -
  obtain obj where obj: "post_init keep_frame part_args = Inr obj"
    by (simp add: post_init_def part_args_def ex_args_def nav_series_def Let_def)
  have p: "prices obj = \<lparr>index = [1, 2, 3], columns = [''b'', ''a''],
                           cells = [[Num 50, Num 100], [Num 55, Num 110], [Num 66, Num 121]]\<rparr>"
    and w: "weights obj = \<lparr>index = [1, 2, 3], columns = [''a''], cells = [[Num 1], [Num 2], [Num 3]]\<rparr>"
    and ip: "instrument_pnl obj = default_instrument_pnl (prices obj) (weights obj)"
    using obj by (auto simp add: post_init_def part_args_def ex_args_def nav_series_def Let_def)
  have u: "union_labels [''b'', ''a''] [''a''] = [''a'', ''b'']"
    by (simp add: union_labels_def)
  have lab: "index (instrument_pnl obj) = [1, 2, 3]" "columns (instrument_pnl obj) = [''a'', ''b'']"
    unfolding ip
    by (simp_all add: default_instrument_pnl_def fillna_def multiply_def binop_labels
          pct_change_labels shift1_labels p w u union_labels_same)
  have h: "instrument_pnl_arg part_args = None" "wf_frame (prices obj)" "wf_frame (weights obj)"
    "3 \<in> set (index (instrument_pnl obj))" "''a'' \<in> set (columns (instrument_pnl obj))"
    by (simp_all add: lab p w part_args_def ex_args_def wf_frame_def shape_def)
  have ns: "\<not> same_labels (prices obj) (weights obj)"
    by (simp add: p w same_labels_def)
  have "lookup (instrument_pnl obj) 3 ''a'' = Num (1 / 5)"
    using instrument_pnl_default [OF obj h]
    by (simp add: p w Let_def fsub_def)
  then show ?thesis using obj h ns lab by blast
qed



section \<open>Properties of the turnover\<close>

subsection \<open>Signs of values\<close>

lemma not_negative_fabs: "not_negative (fabs x)"
  by (cases x) simp_all

lemma not_negative_fmul:
  assumes "not_negative a" "not_negative b"
  shows "not_negative (fmul a b)"
  using assms
  by (cases a; cases b) (auto simp add: inf_of_sign_def sgn_real_def zero_less_mult_iff)

lemma not_negative_fdiv:
  assumes "not_negative a" "not_negative b"
  shows "not_negative (fdiv a b)"
  using assms
  by (cases a; cases b) (auto simp add: inf_of_sign_def sgn_real_def)

lemma not_negative_fadd:
  assumes "not_negative a" "not_negative b"
  shows "not_negative (fadd a b)"
  using assms by (cases a; cases b) auto

lemma not_negative_foldl:
  assumes "not_negative a" "list_all not_negative xs"
  shows "not_negative (foldl fadd a xs)"
  using assms by (induction xs arbitrary: a) (simp_all add: not_negative_fadd)

lemma not_negative_fsum: "list_all not_negative xs \<Longrightarrow> not_negative (fsum xs)"
  by (simp add: fsum_def not_negative_foldl)

lemma not_negative_sum_skipna: "list_all not_negative r \<Longrightarrow> not_negative (sum_skipna r)"
  by (simp add: sum_skipna_def not_negative_fsum list_all_iff)

lemma list_all_map2:
  assumes "list_all P xs" "list_all Q ys" "\<And>x y. P x \<Longrightarrow> Q y \<Longrightarrow> R (g x y)"
  shows "list_all R (map2 g xs ys)"
  using assms(1,2)
proof (induction xs arbitrary: ys)
  case Nil
  then show ?case by simp
next
  case (Cons x xs)
  then show ?case by (cases ys) (simp_all add: assms(3))
qed

lemma nn_matrix_cell:
  "nn_matrix m \<Longrightarrow> t < length m \<Longrightarrow> i < length (m ! t) \<Longrightarrow> not_negative (m ! t ! i)"
  by (simp add: nn_matrix_def list_all_length)

lemma lookup_not_negative:
  assumes "wf_frame f" "nn_matrix (cells f)"
  shows "not_negative (lookup f d c)"
proof (cases "pos_of d (index f)")
  case None
  then show ?thesis by (simp add: lookup_def)
next
  case (Some t)
  show ?thesis
  proof (cases "pos_of c (columns f)")
    case None
    then show ?thesis using Some by (simp add: lookup_def)
  next
    case (Some i)
    have t: "t < length (cells f)"
      using pos_of_less [OF \<open>pos_of d (index f) = Some t\<close>] assms(1) by (simp add: wf_frame_rows)
    then have "i < length (cells f ! t)"
      using pos_of_less [OF Some] assms(1) by (simp add: wf_frame_row wf_frame_rows)
    then show ?thesis
      using nn_matrix_cell [OF assms(2) t] Some \<open>pos_of d (index f) = Some t\<close>
      by (simp add: lookup_def)
  qed
qed

lemma reindex_wf: "wf_frame (reindex f idx cols)"
  by (simp add: reindex_def wf_frame_def shape_def)

lemma reindex_not_negative:
  assumes "wf_frame f" "nn_matrix (cells f)"
  shows "nn_matrix (cells (reindex f idx cols))"
  using lookup_not_negative [OF assms]
  by (simp add: reindex_def nn_matrix_def list_all_iff)

subsection \<open>Shape and sign of the turnover frame\<close>

lemma abs_frame_labels: "index (abs_frame f) = index f" "columns (abs_frame f) = columns f"
  by (simp_all add: abs_frame_def)

lemma diff1_labels: "index (diff1 f) = index f" "columns (diff1 f) = columns f"
  by (simp_all add: diff1_def)

lemma abs_frame_wf: "wf_frame f \<Longrightarrow> wf_frame (abs_frame f)"
  by (simp add: wf_frame_def abs_frame_def shape_def)

lemma abs_frame_nn: "nn_matrix (cells (abs_frame f))"
  by (simp add: abs_frame_def nn_matrix_def list_all_iff not_negative_fabs)

lemma diff1_wf:
  assumes "wf_frame f"
  shows "wf_frame (diff1 f)"
proof -
  have c: "shape (cells f) (length (index f)) (length (columns f))"
    using assms by (simp add: wf_frame_def)
  from shape_map2 [OF c shape_shift_rows [OF c]] show ?thesis
    by (simp add: wf_frame_def diff1_def shift1_def)
qed

lemma binop_nn:
  assumes "wf_frame a" "wf_frame b" "nn_matrix (cells a)" "nn_matrix (cells b)"
    and g: "\<And>x y. not_negative x \<Longrightarrow> not_negative y \<Longrightarrow> not_negative (g x y)"
  shows "nn_matrix (cells (binop g a b))"
proof -
  have rows: "list_all not_negative (map2 g x y)"
    if "list_all not_negative x" "list_all not_negative y" for x y
    using list_all_map2 [OF that, of not_negative g] g by blast
  have m: "nn_matrix (map2 (map2 g) A B)" if "nn_matrix A" "nn_matrix B" for A B
    using list_all_map2 [of "list_all not_negative" A "list_all not_negative" B
                            "list_all not_negative" "map2 g"] that rows
    by (simp add: nn_matrix_def)
  show ?thesis
  proof (cases "same_labels a b")
    case True
    then show ?thesis using m [OF assms(3,4)] by (simp add: binop_def align_def)
  next
    case False
    then show ?thesis
      using m [OF reindex_not_negative [OF assms(1,3)] reindex_not_negative [OF assms(2,4)]]
      by (simp add: binop_def align_def Let_def)
  qed
qed


lemma divide_rows_wf:
  assumes "wf_frame f" "length ds = length (cells f)"
  shows "wf_frame (divide_rows f ds)"
proof -
  have "length r = length (columns f)" if "r \<in> set (map2 (\<lambda>r d. map (\<lambda>x. fdiv x d) r) (cells f) ds)" for r
  proof -
    from that obtain x d where "(x, d) \<in> set (zip (cells f) ds)" "r = map (\<lambda>v. fdiv v d) x" by auto
    then show ?thesis using assms(1) by (auto simp add: wf_frame_def shape_def dest: set_zip_leftD)
  qed
  then show ?thesis using assms by (simp add: wf_frame_def shape_def divide_rows_def)
qed

lemma divide_rows_nn:
  assumes "nn_matrix (cells f)" "list_all not_negative ds"
  shows "nn_matrix (cells (divide_rows f ds))"
proof -
  have "list_all not_negative (map (\<lambda>x. fdiv x d) r)"
    if "list_all not_negative r" "not_negative d" for r d
    using that by (simp add: list_all_iff not_negative_fdiv)
  from list_all_map2 [of "list_all not_negative" "cells f" not_negative ds
                         "list_all not_negative" "\<lambda>r d. map (\<lambda>x. fdiv x d) r"] this
  show ?thesis using assms by (simp add: nn_matrix_def divide_rows_def)
qed


lemma turnover_frame_nn:
  assumes "wf_frame (units self)" "wf_frame (prices self)" "nn_matrix (cells (prices self))"
  shows "wf_frame (turnover_frame self)" and "nn_matrix (cells (turnover_frame self))"
proof -
  let ?t = "multiply (abs_frame (diff1 (units self))) (prices self)"
  let ?e = "abs_frame (multiply (units self) (prices self))"
  let ?ds = "map sum_skipna (cells ?e)"
  have wa: "wf_frame (abs_frame (diff1 (units self)))"
    using assms(1) by (simp add: abs_frame_wf diff1_wf)
  have wt: "wf_frame ?t" unfolding multiply_def using wa assms(2) by (rule binop_wf)
  have nt: "nn_matrix (cells ?t)"
    unfolding multiply_def using wa assms(2) abs_frame_nn assms(3) not_negative_fmul
    by (rule binop_nn)
  have we: "wf_frame ?e"
    unfolding multiply_def using assms(1,2) by (simp add: abs_frame_wf binop_wf)
  have "index ?e = index ?t"
    by (simp add: multiply_def binop_labels abs_frame_labels diff1_labels)
  then have len: "length ?ds = length (cells ?t)"
    using we wt by (simp add: wf_frame_rows)
  have nd: "list_all not_negative ?ds"
    using abs_frame_nn [of "multiply (units self) (prices self)"]
    by (simp add: nn_matrix_def list_all_iff not_negative_sum_skipna)
  show "wf_frame (turnover_frame self)"
    using divide_rows_wf [OF wt len] by (simp add: turnover_frame_def Let_def)
  show "nn_matrix (cells (turnover_frame self))"
    using divide_rows_nn [OF nt nd] by (simp add: turnover_frame_def Let_def)
qed

subsection \<open>Shaping, rolling and resampling\<close>

lemma nn_table_not_negative: "nn_table tbl \<Longrightarrow> not_negative_table tbl"
  by (cases tbl) (simp_all add: nn_table_def not_negative_table_def nn_matrix_def)

lemma agg_df_by_groups_ax1_nn:
  assumes "wf_frame df" "nn_matrix (cells df)"
  shows "wf_frame (agg_df_by_groups_ax1 df gd sum_skipna tc go)"
    and "nn_matrix (cells (agg_df_by_groups_ax1 df gd sum_skipna tc go))"
proof -
  show "wf_frame (agg_df_by_groups_ax1 df gd sum_skipna tc go)"
    using assms(1)
    by (cases tc) (auto simp add: agg_df_by_groups_ax1_def wf_frame_def shape_def Let_def)
  have sub: "not_negative (sum_skipna (map snd (filter P (zip cs r))))"
    if "list_all not_negative r" for r P and cs :: "string list"
  proof -
    have "set (map snd (filter P (zip cs r))) \<subseteq> set r"
      by (auto dest: set_zip_rightD)
    then have "list_all not_negative (map snd (filter P (zip cs r)))"
      using that unfolding list_all_iff by blast
    then show ?thesis by (rule not_negative_sum_skipna)
  qed
  have "list_all not_negative r" if "r \<in> set (cells df)" for r
    using that assms(2) by (simp add: nn_matrix_def list_all_iff)
  then show "nn_matrix (cells (agg_df_by_groups_ax1 df gd sum_skipna tc go))"
    using sub
    by (cases tc)
       (auto simp add: agg_df_by_groups_ax1_def nn_matrix_def list_all_iff Let_def
          intro: not_negative_sum_skipna [unfolded list_all_iff])
qed

lemma concat_total_nn:
  assumes "wf_frame f" "nn_matrix (cells f)"
  shows "wf_frame (concat_total name f)" and "nn_matrix (cells (concat_total name f))"
  using assms
  by (auto simp add: concat_total_def wf_frame_def shape_def nn_matrix_def list_all_iff
        intro: not_negative_sum_skipna [unfolded list_all_iff])

lemma reindex_series_nn:
  assumes "list_all not_negative (s_values s)" "length (s_values s) = length (s_index s)"
    and "reindex_series s idx = Inr s'"
  shows "list_all not_negative (s_values s')"
proof (cases "s_index s = idx")
  case True
  then show ?thesis using assms by (simp add: reindex_series_def)
next
  case False
  have "not_negative (case pos_of d (s_index s) of Some t \<Rightarrow> s_values s ! t | None \<Rightarrow> NaN)" for d
  proof (cases "pos_of d (s_index s)")
    case None
    then show ?thesis by simp
  next
    case (Some t)
    then have "t < length (s_values s)" using pos_of_less assms(2) by fastforce
    then show ?thesis using assms(1) Some by (simp add: list_all_length)
  qed
  then show ?thesis
    using assms(3) False by (auto simp add: reindex_series_def list_all_iff split: if_splits)
qed

lemma rolling_sum_length: "length (rolling_sum w xs) = length xs"
  by (simp add: rolling_sum_def)

lemma rolling_sum_nn:
  assumes "list_all not_negative xs"
  shows "list_all not_negative (rolling_sum w xs)"
proof -
  have "not_negative (fsum (take w (drop k xs)))" for k
  proof -
    have "set (take w (drop k xs)) \<subseteq> set xs"
      using set_take_subset set_drop_subset by fast
    then have "list_all not_negative (take w (drop k xs))"
      using assms unfolding list_all_iff by blast
    then show ?thesis by (rule not_negative_fsum)
  qed
  then show ?thesis by (auto simp add: rolling_sum_def list_all_iff Let_def)
qed

lemma column_nn:
  assumes "wf_frame f" "nn_matrix (cells f)" "i < length (columns f)"
  shows "list_all not_negative (column (cells f) i)"
proof -
  have "not_negative (r ! i)" if "r \<in> set (cells f)" for r
  proof -
    have "length r = length (columns f)" using that assms(1) by (simp add: wf_frame_def shape_def)
    then have "r ! i \<in> set r" using assms(3) by simp
    moreover have "list_all not_negative r"
      using that assms(2) by (simp add: nn_matrix_def list_all_iff)
    ultimately show ?thesis by (simp add: list_all_iff)
  qed
  then show ?thesis by (simp add: column_def list_all_iff)
qed

lemma map_columns_nn:
  assumes "wf_frame f" "nn_matrix (cells f)"
    and len: "\<And>xs. length (g xs) = length xs"
    and nn: "\<And>xs. list_all not_negative xs \<Longrightarrow> list_all not_negative (g xs)"
  shows "wf_frame (map_columns g f)" and "nn_matrix (cells (map_columns g f))"
proof -
  show "wf_frame (map_columns g f)"
    using assms(1) by (auto simp add: map_columns_def wf_frame_def shape_def Let_def)
  have "not_negative (g (column (cells f) i) ! t)"
    if "i < length (columns f)" "t < length (cells f)" for i t
  proof -
    have "t < length (g (column (cells f) i))" using that(2) by (simp add: len column_def)
    moreover have "list_all not_negative (g (column (cells f) i))"
      using nn [OF column_nn [OF assms(1,2) that(1)]] .
    ultimately show ?thesis by (simp add: list_all_length)
  qed
  then show "nn_matrix (cells (map_columns g f))"
    by (auto simp add: map_columns_def nn_matrix_def list_all_iff Let_def)
qed

lemma rolling_nn:
  assumes "nn_table tbl" "rolling w tbl = Inr tbl'"
  shows "nn_table tbl'"
proof (cases tbl)
  case (Series s)
  then show ?thesis
    using assms rolling_sum_nn [of "s_values s" "nat w"]
    by (auto simp add: rolling_def nn_table_def split: if_splits)
next
  case (Frame f)
  then have f: "wf_frame f" "nn_matrix (cells f)" using assms(1) by (simp_all add: nn_table_def)
  have "wf_frame (map_columns (rolling_sum (nat w)) f)"
       "nn_matrix (cells (map_columns (rolling_sum (nat w)) f))"
    using map_columns_nn [OF f, of "rolling_sum (nat w)"] rolling_sum_length rolling_sum_nn
    by blast+
  then show ?thesis
    using assms(2) Frame by (auto simp add: rolling_def nn_table_def split: if_splits)
qed

lemma resample_cells_nn:
  assumes "shape m T n" "nn_matrix m"
  shows "shape (resample_cells bins m n) (length bins) n"
    and "nn_matrix (resample_cells bins m n)"
proof -
  show "shape (resample_cells bins m n) (length bins) n"
    by (auto simp add: resample_cells_def shape_def)
  have "not_negative (sum_skipna (map (\<lambda>t. m ! t ! i) (filter (\<lambda>t. t < length m) ts)))"
    if "i < n" for i ts
  proof -
    have "not_negative (m ! t ! i)" if "t < length m" for t
      using nn_matrix_cell [OF assms(2) that] assms(1) that \<open>i < n\<close> by (simp add: shape_def)
    then show ?thesis
      by (intro not_negative_sum_skipna) (simp add: list_all_iff)
  qed
  then show "nn_matrix (resample_cells bins m n)"
    by (auto simp add: resample_cells_def nn_matrix_def list_all_iff)
qed

lemma resample_sum_nn:
  assumes "nn_table tbl"
  shows "nn_table (resample_sum freq tbl)"
proof (cases tbl)
  case (Series s)
  let ?m = "map (\<lambda>v. [v]) (s_values s)"
  have "shape ?m (length (s_values s)) 1" by (auto simp add: shape_def)
  moreover have "nn_matrix ?m"
    using assms Series by (simp add: nn_table_def nn_matrix_def list_all_iff)
  ultimately have sh: "shape (resample_cells (freq (s_index s)) ?m 1) (length (freq (s_index s))) 1"
    and nn: "nn_matrix (resample_cells (freq (s_index s)) ?m 1)"
    using resample_cells_nn by blast+
  have "not_negative (r ! 0)" if "r \<in> set (resample_cells (freq (s_index s)) ?m 1)" for r
  proof -
    have "length r = 1" using sh that by (simp add: shape_def)
    then have "r ! 0 \<in> set r" by simp
    then show ?thesis using nn that by (simp add: nn_matrix_def list_all_iff)
  qed
  then show ?thesis
    using Series by (simp add: resample_sum_def nn_table_def list_all_iff)
next
  case (Frame f)
  then have f: "shape (cells f) (length (index f)) (length (columns f))" "nn_matrix (cells f)"
    using assms by (simp_all add: nn_table_def wf_frame_def)
  from resample_cells_nn [OF f] show ?thesis
    using Frame by (simp add: resample_sum_def nn_table_def wf_frame_def)
qed

lemma shaped_nn:
  assumes "wf_frame (units self)" "wf_frame (prices self)" "nn_matrix (cells (prices self))"
  shows "nn_table (Frame (agg_df_by_groups_ax1 (turnover_frame self) gd sum_skipna tc go))"
    and "nn_table (Frame (concat_total name (turnover_frame self)))"
    and "nn_table (Frame (turnover_frame self))"
    and "reindex_series \<lparr>s_name = n, s_index = index (turnover_frame self),
                           s_values = map sum_skipna (cells (turnover_frame self))\<rparr> idx = Inr s
         \<Longrightarrow> nn_table (Series s)"
proof -
  note t = turnover_frame_nn [OF assms]
  show "nn_table (Frame (agg_df_by_groups_ax1 (turnover_frame self) gd sum_skipna tc go))"
    using agg_df_by_groups_ax1_nn [OF t] by (simp add: nn_table_def)
  show "nn_table (Frame (concat_total name (turnover_frame self)))"
    using concat_total_nn [OF t] by (simp add: nn_table_def)
  show "nn_table (Frame (turnover_frame self))"
    using t by (simp add: nn_table_def)
  let ?s = "\<lparr>s_name = n, s_index = index (turnover_frame self),
              s_values = map sum_skipna (cells (turnover_frame self))\<rparr>"
  have v: "list_all not_negative (s_values ?s)"
    using t(2) by (simp add: nn_matrix_def list_all_iff not_negative_sum_skipna)
  have l: "length (s_values ?s) = length (s_index ?s)"
    using t(1) by (simp add: wf_frame_rows)
  show "nn_table (Series s)" if "reindex_series ?s idx = Inr s"
    using reindex_series_nn [OF v l that] by (simp add: nn_table_def)
qed



subsection \<open>Claims on the turnover\<close>

text \<open>
  C7, as the code has it. When no price is negative, every value that \<open>get_turnover\<close>
  returns is non-negative wherever it is defined, whichever of the aggregated, grouped or
  per-instrument shape is asked for, rolled over a window, resampled by summation or
  neither, and located in a time period that keeps values non-negative.
\<close>

theorem turnover_not_negative:
  assumes "wf_frame (units self)" and "wf_frame (prices self)"
    and "list_all (list_all not_negative) (cells (prices self))"
    and "\<forall>locate. time_period = Some locate \<longrightarrow>
           (\<forall>t. not_negative_table t \<longrightarrow> not_negative_table (locate t))"
    and "get_turnover self is_agg is_grouped time_period roll_period add_total freq = Inr tbl"
  shows "not_negative_table tbl"
proof -
  have p: "nn_matrix (cells (prices self))" using assms(3) by (simp add: nn_matrix_def)
  note sh = shaped_nn [OF assms(1,2) p]
  from assms(5) obtain shaped summed where
    shaped: "(if is_agg then
               (case reindex_series \<lparr>s_name = s_name (nav self), s_index = index (turnover_frame self),
                                      s_values = map sum_skipna (cells (turnover_frame self))\<rparr>
                                    (s_index (nav self)) of
                  Inl e \<Rightarrow> Inl e
                | Inr s \<Rightarrow> Inr (Series s))
             else if is_grouped \<or> 10 < length (columns (turnover_frame self)) then
               Inr (Frame (agg_df_by_groups_ax1 (turnover_frame self) (group_data self) sum_skipna
                             (if add_total then Some (s_name (nav self)) else None)
                             (group_order self)))
             else if add_total then Inr (Frame (concat_total (s_name (nav self)) (turnover_frame self)))
             else Inr (Frame (turnover_frame self))) = Inr shaped" and
    summed: "(case roll_period of
                Some w \<Rightarrow> rolling w shaped
              | None \<Rightarrow> (case freq of Some b \<Rightarrow> Inr (resample_sum b shaped) | None \<Rightarrow> Inr shaped))
             = Inr summed" and
    tbl: "tbl = (case time_period of Some locate \<Rightarrow> locate summed | None \<Rightarrow> summed)"
    by (auto simp add: get_turnover_def Let_def split: sum.splits)
  have 1: "nn_table shaped"
    using shaped sh by (auto split: if_splits sum.splits)
  have 2: "nn_table summed"
    using summed 1 rolling_nn resample_sum_nn by (auto split: option.splits)
  show ?thesis
    using tbl assms(4) nn_table_not_negative [OF 2] by (auto split: option.splits)
qed

theorem turnover_not_negative_witness:
  "wf_frame (units long_fund) \<and> wf_frame (prices long_fund) \<and>
   list_all (list_all not_negative) (cells (prices long_fund)) \<and>
   get_turnover long_fund True False None None True None =
     Inr (Series \<lparr>s_name = ''fund'', s_index = [1, 2], s_values = [Num 0, Num (1 / 2)]\<rparr>) \<and>
   not_negative_table (Series \<lparr>s_name = ''fund'', s_index = [1, 2], s_values = [Num 0, Num (1 / 2)]\<rparr>)"
proof -
  have g: "get_turnover long_fund True False None None True None =
     Inr (Series \<lparr>s_name = ''fund'', s_index = [1, 2], s_values = [Num 0, Num (1 / 2)]\<rparr>)"
    by (simp add: get_turnover_def turnover_frame_def long_fund_def short_price_def multiply_def
          binop_def align_def same_labels_def abs_frame_def diff1_def shift1_def shift_rows_def
          divide_rows_def sum_skipna_def fsum_def fsub_def reindex_series_def Let_def)
  have h: "wf_frame (units long_fund)" "wf_frame (prices long_fund)"
    "list_all (list_all not_negative) (cells (prices long_fund))"
    by (simp_all add: long_fund_def short_price_def wf_frame_def shape_def)
  have l: "\<forall>locate. (None :: (table \<Rightarrow> table) option) = Some locate \<longrightarrow>
             (\<forall>t. not_negative_table t \<longrightarrow> not_negative_table (locate t))"
    by simp
  show ?thesis
    using turnover_not_negative [OF h l g] g h by simp
qed

text \<open>
  C7, as stated, fails for a negative price. The traded value multiplies the absolute change
  of units by the price itself, while the gross exposure takes absolute values: with units
  \<open>1, 2\<close> and prices \<open>1, -2\<close> the aggregated turnover of the second date is
  \<open>1 * (-2) / |2 * (-2)| = -1/2\<close>.
\<close>

theorem negative_price_turnover:
  "get_turnover short_price True False None None True None =
     Inr (Series \<lparr>s_name = ''fund'', s_index = [1, 2], s_values = [Num 0, Num (- (1 / 2))]\<rparr>)
   \<and> \<not> not_negative_table
         (Series \<lparr>s_name = ''fund'', s_index = [1, 2], s_values = [Num 0, Num (- (1 / 2))]\<rparr>)"
  by (simp add: get_turnover_def turnover_frame_def short_price_def multiply_def
        binop_def align_def same_labels_def abs_frame_def diff1_def shift1_def shift_rows_def
        divide_rows_def sum_skipna_def fsum_def fsub_def reindex_series_def Let_def
        not_negative_table_def)



section \<open>Properties of the performance data\<close>










end
